theory Spec2Isabelle
  imports Main "HOL-Library.AList"
begin

section \<open>Data model of server.js\<close>

text \<open>
  The server keeps two global \<^verbatim>\<open>Map\<close>s, \<^verbatim>\<open>rooms\<close> and \<^verbatim>\<open>players\<close>, and each room
  holds a \<^verbatim>\<open>Map\<close> of its members and two plain objects (\<^verbatim>\<open>characters\<close>, \<^verbatim>\<open>scores\<close>)
  keyed by socket id. A JavaScript \<^verbatim>\<open>Map\<close> iterates in insertion order, \<^verbatim>\<open>set\<close> on a
  present key keeps its position, and an object with keys that are not array indices
  (socket ids and the word \<^verbatim>\<open>null\<close> are not) does the same. All of them are association
  lists here: \<open>AList.update\<close> is \<^verbatim>\<open>set\<close> / property assignment, \<open>AList.delete\<close> is
  \<^verbatim>\<open>delete\<close>, \<open>map_of\<close> is \<^verbatim>\<open>get\<close> / property read (\<open>None\<close> for \<^verbatim>\<open>undefined\<close>).
  Scores and rounds are whole numbers far below \<open>2^53\<close>, modelled as \<open>int\<close>.
\<close>

datatype character = Raja | Mantri | Chor | Sipahi

text \<open>\<^verbatim>\<open>CHARACTERS[c].points\<close>\<close>

fun points :: "character \<Rightarrow> int" where
  "points Raja = 2000"
| "points Mantri = 900"
| "points Chor = 0"
| "points Sipahi = 700"

datatype status = Waiting | Playing | Finished

text \<open>A value sent by a client where the server expects a player id.\<close>

datatype jsval = Undefined | Null | Str string

record player =
  player_id :: string
  name :: string
  avatar :: string
  isHost :: bool
  isReady :: bool

record results =
  res_sipahiId :: "string option"
  res_chorId :: "string option"
  suspectedPlayerId :: jsval
  isCorrectGuess :: bool
  pointChanges :: "(string \<times> int) list"

record gameState =
  status :: status
  currentRound :: int
  totalRounds :: int
  characters :: "(string \<times> character) list"
  scores :: "(string \<times> int) list"
  sipahiId :: "string option"
  chorId :: "string option"
  currentGuess :: "jsval option"
  roundResults :: "results option"

record settings =
  maxPlayers :: nat
  rounds :: int

record room =
  code :: string
  hostId :: string
  players :: "(string \<times> player) list"
  gameState :: gameState
  settings :: settings

text \<open>
  The two global maps. The global \<^verbatim>\<open>players\<close> map (socket id to the room code recorded
  for that socket, \<^verbatim>\<open>null\<close> at first) is the field \<open>all_players\<close>, since a room has a
  field \<open>players\<close> of its own.
\<close>

record server =
  rooms :: "(string \<times> room) list"
  all_players :: "(string \<times> string option) list"

definition initial :: server where
  "initial = \<lparr>rooms = [], all_players = []\<rparr>"

text \<open>What the handlers emit: to whom, and what.\<close>

datatype recipient = ToCaller | ToRoom string | ToOthersInRoom string | ToPlayer string

datatype message =
    Error string
  | RoomCreated string "player list" settings
  | PlayerJoined "player list" string
  | RoomJoined string "player list" settings
  | GameStarted int int
  | CharacterAssigned "character option" bool
  | RoundResults results "(string \<times> int) list" "(string \<times> character) list" int
  | RoundStarted int int
  | GameFinished "(player \<times> int) option" "(string \<times> int) list" "player list"
  | PlayerLeft "player list" string
  | NewHost string "player list"

type_synonym event = "recipient \<times> message"

section \<open>Utility functions\<close>

text \<open>\<^verbatim>\<open>x || d\<close> on an optional number: \<^verbatim>\<open>undefined\<close> and \<open>0\<close> are falsy.\<close>

definition orDefault :: "int option \<Rightarrow> int \<Rightarrow> int" where
  "orDefault x d = (case x of None \<Rightarrow> d | Some v \<Rightarrow> if v = 0 then d else v)"

text \<open>\<^verbatim>\<open>scores[id] || 0\<close>\<close>

definition scoreOf :: "(string \<times> int) list \<Rightarrow> string \<Rightarrow> int" where
  "scoreOf sc k = orDefault (map_of sc k) 0"

text \<open>A \<^verbatim>\<open>null\<close> used as a property key is the key \<^verbatim>\<open>"null"\<close>.\<close>

definition keyOf :: "string option \<Rightarrow> string" where
  "keyOf x = (case x of None \<Rightarrow> ''null'' | Some k \<Rightarrow> k)"

definition toJs :: "string option \<Rightarrow> jsval" where
  "toJs x = (case x of None \<Rightarrow> Null | Some k \<Rightarrow> Str k)"

text \<open>
  \<^verbatim>\<open>shuffleArray\<close>: the loop runs \<open>i\<close> from \<open>length - 1\<close> down to \<open>1\<close>. The random source
  is a parameter: \<open>rnd i\<close> stands for the draw of \<^verbatim>\<open>Math.random()\<close> in iteration \<open>i\<close>, and
  \<^verbatim>\<open>Math.floor(Math.random() * (i + 1))\<close>, which ranges over exactly \<open>0..i\<close>, is
  \<open>rnd i mod (i + 1)\<close>. The destructuring swap reads both cells before it writes.
\<close>

fun shuffleLoop :: "(nat \<Rightarrow> nat) \<Rightarrow> nat \<Rightarrow> 'a list \<Rightarrow> 'a list" where
  "shuffleLoop rnd 0 xs = xs"
| "shuffleLoop rnd (Suc i) xs =
     (let j = rnd (Suc i) mod (Suc i + 1)
      in shuffleLoop rnd i (xs[Suc i := xs ! j, j := xs ! Suc i]))"

definition shuffleArray :: "(nat \<Rightarrow> nat) \<Rightarrow> 'a list \<Rightarrow> 'a list" where
  "shuffleArray rnd array = shuffleLoop rnd (length array - 1) array"

text \<open>
  \<^verbatim>\<open>createRoom\<close>'s do-while loop. \<open>codes\<close> is the sequence of values that the coming calls
  of \<^verbatim>\<open>generateRoomCode\<close> return; the loop ends at the first one that the registry does
  not have. \<open>None\<close>: every listed code is taken, the loop is still running.
\<close>

fun pickRoomCode :: "(string \<times> room) list \<Rightarrow> string list \<Rightarrow> string option" where
  "pickRoomCode rms [] = None"
| "pickRoomCode rms (c # cs) =
     (if map_of rms c \<noteq> None then pickRoomCode rms cs else Some c)"

definition createRoom ::
  "(string \<times> room) list \<Rightarrow> string list \<Rightarrow> string \<Rightarrow> string \<Rightarrow> string \<Rightarrow> int option
     \<Rightarrow> (room \<times> (string \<times> room) list) option" where
  "createRoom rms codes host nm av rnds =
     (case pickRoomCode rms codes of
        None \<Rightarrow> None
      | Some roomCode \<Rightarrow>
          let room = \<lparr>code = roomCode, hostId = host,
                      players = [(host, \<lparr>player_id = host, name = nm, avatar = av,
                                         isHost = True, isReady = True\<rparr>)],
                      gameState = \<lparr>status = Waiting, currentRound = 1,
                                   totalRounds = orDefault rnds 5, characters = [],
                                   scores = [(host, 0)], sipahiId = None, chorId = None,
                                   currentGuess = None, roundResults = None\<rparr>,
                      settings = \<lparr>maxPlayers = 4, rounds = orDefault rnds 5\<rparr>\<rparr>
          in Some (room, AList.update roomCode room rms))"

section \<open>Role assignment and round results\<close>

definition allCharacters :: "character list" where
  "allCharacters = [Raja, Mantri, Chor, Sipahi]"

text \<open>\<^verbatim>\<open>shuffledCharacters[index] || characters[index % characters.length]\<close>\<close>

definition characterAt :: "character list \<Rightarrow> nat \<Rightarrow> character" where
  "characterAt shuffled index =
     (if index < length shuffled then shuffled ! index
      else allCharacters ! (index mod length allCharacters))"

text \<open>The body of the \<^verbatim>\<open>forEach\<close> of \<^verbatim>\<open>assignCharacters\<close>, and the loop over the ids.\<close>

definition assignOne :: "character list \<Rightarrow> string \<Rightarrow> nat \<Rightarrow> gameState \<Rightarrow> gameState" where
  "assignOne shuffled playerId index gs =
     (let character = characterAt shuffled index;
          gs1 = gs\<lparr>characters := AList.update playerId character (characters gs)\<rparr>
      in if character = Sipahi then gs1\<lparr>sipahiId := Some playerId\<rparr>
         else if character = Chor then gs1\<lparr>chorId := Some playerId\<rparr>
         else gs1)"

fun assignFrom :: "character list \<Rightarrow> nat \<Rightarrow> string list \<Rightarrow> gameState \<Rightarrow> gameState" where
  "assignFrom shuffled index [] gs = gs"
| "assignFrom shuffled index (playerId # ids) gs =
     assignFrom shuffled (Suc index) ids (assignOne shuffled playerId index gs)"

definition assignCharacters :: "(nat \<Rightarrow> nat) \<Rightarrow> room \<Rightarrow> room" where
  "assignCharacters rnd room =
     (let playerIds = map fst (players room);
          shuffledCharacters = shuffleArray rnd allCharacters
      in room\<lparr>gameState := assignFrom shuffledCharacters 0 playerIds (gameState room)\<rparr>)"

text \<open>The three loops of \<^verbatim>\<open>calculateRoundResults\<close>.\<close>

definition initChanges :: "string list \<Rightarrow> (string \<times> int) list" where
  "initChanges ids = fold (\<lambda>playerId pc. AList.update playerId 0 pc) ids []"

definition awardOne :: "string \<times> character \<Rightarrow> (string \<times> int) list \<Rightarrow> (string \<times> int) list" where
  "awardOne e pc =
     (if snd e = Raja then AList.update (fst e) (points Raja) pc
      else if snd e = Mantri then AList.update (fst e) (points Mantri) pc
      else pc)"

definition addPoints :: "string \<times> int \<Rightarrow> (string \<times> int) list \<Rightarrow> (string \<times> int) list" where
  "addPoints e sc = AList.update (fst e) (scoreOf sc (fst e) + snd e) sc"

definition roundChanges :: "room \<Rightarrow> jsval \<Rightarrow> (string \<times> int) list" where
  "roundChanges room suspected =
     (let gs = gameState room;
          sipahi = keyOf (sipahiId gs);
          chor = keyOf (chorId gs);
          pc0 = initChanges (map fst (players room));
          pc1 = (if suspected = toJs (chorId gs)
                 then AList.update chor (points Chor) (AList.update sipahi (points Sipahi) pc0)
                 else AList.update chor (points Sipahi) (AList.update sipahi (points Chor) pc0))
      in fold awardOne (characters gs) pc1)"

definition calculateRoundResults :: "room \<Rightarrow> jsval \<Rightarrow> results \<times> room" where
  "calculateRoundResults room suspected =
     (let gs = gameState room;
          res = \<lparr>res_sipahiId = sipahiId gs, res_chorId = chorId gs,
                 suspectedPlayerId = suspected,
                 isCorrectGuess = (suspected = toJs (chorId gs)),
                 pointChanges = roundChanges room suspected\<rparr>
      in (res, room\<lparr>gameState := gs\<lparr>scores := fold addPoints (pointChanges res) (scores gs)\<rparr>\<rparr>))"

section \<open>The socket handlers\<close>

text \<open>
  Each handler takes the server state and the id of the calling socket and returns what
  it emits and the new state. A handler's \<^verbatim>\<open>try\<close> block can only throw at
  \<^verbatim>\<open>players.get(socket.id).roomCode\<close>, when the global map has no entry for the caller;
  the \<^verbatim>\<open>catch\<close> then emits the handler's failure message, after the mutations made so far.
\<close>

definition connection :: "server \<Rightarrow> string \<Rightarrow> server" where
  "connection s caller = s\<lparr>all_players := AList.update caller None (all_players s)\<rparr>"

definition createRoomHandler ::
  "server \<Rightarrow> string list \<Rightarrow> string \<Rightarrow> string \<Rightarrow> string \<Rightarrow> int option
     \<Rightarrow> (event list \<times> server) option" where
  "createRoomHandler s codes caller nm av rnds =
     (case createRoom (rooms s) codes caller nm av rnds of
        None \<Rightarrow> None
      | Some (room, rms) \<Rightarrow>
          let s1 = s\<lparr>rooms := rms\<rparr>
          in (case map_of (all_players s1) caller of
                None \<Rightarrow> Some ([(ToCaller, Error ''Failed to create room'')], s1)
              | Some _ \<Rightarrow>
                  Some ([(ToCaller, RoomCreated (code room) (map snd (players room)) (settings room))],
                        s1\<lparr>all_players := AList.update caller (Some (code room)) (all_players s1)\<rparr>)))"

definition joinRoom :: "server \<Rightarrow> string \<Rightarrow> string \<Rightarrow> string \<Rightarrow> string \<Rightarrow> event list \<times> server" where
  "joinRoom s caller roomCode nm av =
     (case map_of (rooms s) roomCode of
        None \<Rightarrow> ([(ToCaller, Error ''Room not found'')], s)
      | Some room \<Rightarrow>
          if length (players room) \<ge> maxPlayers (settings room)
          then ([(ToCaller, Error ''Room is full'')], s)
          else if status (gameState room) = Playing
          then ([(ToCaller, Error ''Game already in progress'')], s)
          else if find (\<lambda>p. name p = nm) (map snd (players room)) \<noteq> None
          then ([(ToCaller, Error ''Name already taken'')], s)
          else
            let ps = AList.update caller \<lparr>player_id = caller, name = nm, avatar = av,
                                          isHost = False, isReady = True\<rparr> (players room);
                gs = (gameState room)\<lparr>scores := AList.update caller 0 (scores (gameState room))\<rparr>;
                room1 = room\<lparr>players := ps, gameState := gs\<rparr>;
                s1 = s\<lparr>rooms := AList.update roomCode room1 (rooms s)\<rparr>
            in (case map_of (all_players s1) caller of
                  None \<Rightarrow> ([(ToCaller, Error ''Failed to join room'')], s1)
                | Some _ \<Rightarrow>
                    ([(ToRoom roomCode, PlayerJoined (map snd ps) nm),
                      (ToCaller, RoomJoined roomCode (map snd ps) (settings room1))],
                     s1\<lparr>all_players := AList.update caller (Some roomCode) (all_players s1)\<rparr>)))"

text \<open>The \<^verbatim>\<open>character-assigned\<close> messages, one per member.\<close>

definition characterEvents :: "room \<Rightarrow> event list" where
  "characterEvents room =
     map (\<lambda>playerId. (ToPlayer playerId,
            CharacterAssigned (map_of (characters (gameState room)) playerId)
                              (sipahiId (gameState room) = Some playerId)))
         (map fst (players room))"

definition startGame ::
  "server \<Rightarrow> (nat \<Rightarrow> nat) \<Rightarrow> string \<Rightarrow> string \<Rightarrow> int option \<Rightarrow> event list \<times> server" where
  "startGame s rnd caller roomCode rnds =
     (case map_of (rooms s) roomCode of
        None \<Rightarrow> ([(ToCaller, Error ''Not authorized to start game'')], s)
      | Some room \<Rightarrow>
          if hostId room \<noteq> caller
          then ([(ToCaller, Error ''Not authorized to start game'')], s)
          else if length (players room) < 2
          then ([(ToCaller, Error ''Need at least 2 players'')], s)
          else
            let gs = gameState room;
                gs1 = gs\<lparr>totalRounds := orDefault rnds (rounds (settings room)),
                         status := Playing, currentRound := 1\<rparr>;
                gs2 = gs1\<lparr>scores := fold (\<lambda>playerId sc. AList.update playerId 0 sc)
                                          (map fst (players room)) (scores gs1)\<rparr>;
                room1 = assignCharacters rnd (room\<lparr>gameState := gs2\<rparr>)
            in ((ToRoom roomCode, GameStarted (currentRound (gameState room1))
                                              (totalRounds (gameState room1)))
                  # characterEvents room1,
                s\<lparr>rooms := AList.update roomCode room1 (rooms s)\<rparr>))"

definition makeGuess :: "server \<Rightarrow> string \<Rightarrow> string \<Rightarrow> jsval \<Rightarrow> event list \<times> server" where
  "makeGuess s caller roomCode suspected =
     (case map_of (rooms s) roomCode of
        None \<Rightarrow> ([(ToCaller, Error ''Not your turn or invalid room'')], s)
      | Some room \<Rightarrow>
          if sipahiId (gameState room) \<noteq> Some caller
          then ([(ToCaller, Error ''Not your turn or invalid room'')], s)
          else
            let (res, room1) = calculateRoundResults room suspected;
                room2 = room1\<lparr>gameState := (gameState room1)\<lparr>roundResults := Some res\<rparr>\<rparr>
            in ([(ToRoom roomCode,
                  RoundResults res (scores (gameState room2)) (characters (gameState room2))
                               (currentRound (gameState room2)))],
                s\<lparr>rooms := AList.update roomCode room2 (rooms s)\<rparr>))"

text \<open>
  The winner of \<^verbatim>\<open>next-round\<close>: the members with their scores, sorted by
  \<^verbatim>\<open>(a, b) => b.score - a.score\<close>, first element. \<^verbatim>\<open>Array.prototype.sort\<close> is a stable
  sort, as \<open>sort_key\<close> is; an empty array has no first element.
\<close>

definition scoredPlayers :: "room \<Rightarrow> (player \<times> int) list" where
  "scoredPlayers room =
     map (\<lambda>e. (snd e, scoreOf (scores (gameState room)) (fst e))) (players room)"

definition winner :: "room \<Rightarrow> (player \<times> int) option" where
  "winner room =
     (case sort_key (\<lambda>p. - snd p) (scoredPlayers room) of
        [] \<Rightarrow> None
      | w # _ \<Rightarrow> Some w)"

definition nextRound :: "server \<Rightarrow> (nat \<Rightarrow> nat) \<Rightarrow> string \<Rightarrow> string \<Rightarrow> event list \<times> server" where
  "nextRound s rnd caller roomCode =
     (case map_of (rooms s) roomCode of
        None \<Rightarrow> ([(ToCaller, Error ''Not authorized'')], s)
      | Some room \<Rightarrow>
          if hostId room \<noteq> caller
          then ([(ToCaller, Error ''Not authorized'')], s)
          else
            let gs1 = (gameState room)\<lparr>currentRound := currentRound (gameState room) + 1\<rparr>
            in if currentRound gs1 > totalRounds gs1
               then
                 let room1 = room\<lparr>gameState := gs1\<lparr>status := Finished\<rparr>\<rparr>
                 in ([(ToRoom roomCode,
                       GameFinished (winner room1) (scores (gameState room1))
                                    (map snd (players room1)))],
                     s\<lparr>rooms := AList.update roomCode room1 (rooms s)\<rparr>)
               else
                 let room1 = assignCharacters rnd (room\<lparr>gameState := gs1\<rparr>)
                 in ((ToRoom roomCode, RoundStarted (currentRound (gameState room1))
                                                    (totalRounds (gameState room1)))
                       # characterEvents room1,
                     s\<lparr>rooms := AList.update roomCode room1 (rooms s)\<rparr>))"

text \<open>
  \<^verbatim>\<open>disconnect\<close>. The guard \<^verbatim>\<open>player && player.roomCode\<close> is false for a missing entry,
  for \<^verbatim>\<open>null\<close> and for the empty string. \<open>leaveRoom\<close> is the part inside the guards.
\<close>

definition leaveRoom :: "server \<Rightarrow> string \<Rightarrow> string \<Rightarrow> room \<Rightarrow> event list \<times> server" where
  "leaveRoom s caller roomCode room =
     (let gs = gameState room;
          room1 = room\<lparr>players := AList.delete caller (players room),
                       gameState := gs\<lparr>scores := AList.delete caller (scores gs)\<rparr>\<rparr>;
          left = (ToOthersInRoom roomCode, PlayerLeft (map snd (players room1)) caller)
      in if hostId room = caller
         then (case players room1 of
                 [] \<Rightarrow> ([left], s\<lparr>rooms := AList.delete roomCode (rooms s)\<rparr>)
               | e # _ \<Rightarrow>
                   let newHostId = fst e;
                       ps = AList.update newHostId ((snd e)\<lparr>isHost := True\<rparr>) (players room1);
                       room2 = room1\<lparr>hostId := newHostId, players := ps\<rparr>
                   in ([left, (ToRoom roomCode, NewHost newHostId (map snd ps))],
                       s\<lparr>rooms := AList.update roomCode room2 (rooms s)\<rparr>))
         else ([left], s\<lparr>rooms := AList.update roomCode room1 (rooms s)\<rparr>))"

definition disconnect :: "server \<Rightarrow> string \<Rightarrow> event list \<times> server" where
  "disconnect s caller =
     (let (evs, s1) =
            (case map_of (all_players s) caller of
               None \<Rightarrow> ([], s)
             | Some None \<Rightarrow> ([], s)
             | Some (Some roomCode) \<Rightarrow>
                 if roomCode = [] then ([], s)
                 else (case map_of (rooms s) roomCode of
                         None \<Rightarrow> ([], s)
                       | Some room \<Rightarrow> leaveRoom s caller roomCode room))
      in (evs, s1\<lparr>all_players := AList.delete caller (all_players s1)\<rparr>))"

section \<open>The dispatcher\<close>

text \<open>
  One inbound event: which socket it comes from and what it carries. For the two events
  that draw random numbers the draws travel with the event (the codes that
  \<^verbatim>\<open>generateRoomCode\<close> returns, the draws of the shuffle). \<open>run\<close> feeds a sequence of
  events to the server, one after the other, as the single-threaded event loop does.
\<close>

datatype action =
    Connection string
  | CreateRoom string "string list" string string "int option"
  | JoinRoom string string string string
  | StartGame string "nat \<Rightarrow> nat" string "int option"
  | MakeGuess string string jsval
  | NextRound string "nat \<Rightarrow> nat" string
  | Disconnect string

fun handle :: "server \<Rightarrow> action \<Rightarrow> (event list \<times> server) option" where
  "handle s (Connection caller) = Some ([], connection s caller)"
| "handle s (CreateRoom caller codes nm av rnds) = createRoomHandler s codes caller nm av rnds"
| "handle s (JoinRoom caller roomCode nm av) = Some (joinRoom s caller roomCode nm av)"
| "handle s (StartGame caller rnd roomCode rnds) = Some (startGame s rnd caller roomCode rnds)"
| "handle s (MakeGuess caller roomCode suspected) = Some (makeGuess s caller roomCode suspected)"
| "handle s (NextRound caller rnd roomCode) = Some (nextRound s rnd caller roomCode)"
| "handle s (Disconnect caller) = Some (disconnect s caller)"

fun run :: "server \<Rightarrow> action list \<Rightarrow> server option" where
  "run s [] = Some s"
| "run s (a # as) = (case handle s a of None \<Rightarrow> None | Some (evs, s') \<Rightarrow> run s' as)"

text \<open>The room registered under a code after a run from the empty server, if any.\<close>

definition roomAfter :: "action list \<Rightarrow> string \<Rightarrow> room option" where
  "roomAfter as roomCode =
     (case run initial as of None \<Rightarrow> None | Some s \<Rightarrow> map_of (rooms s) roomCode)"

text \<open>The ids of a room's members, in membership order, and the keys of its scores.\<close>

definition memberIds :: "room \<Rightarrow> string list" where
  "memberIds room = map fst (players room)"

definition scoreKeys :: "room \<Rightarrow> string list" where
  "scoreKeys room = map fst (scores (gameState room))"

text \<open>
  What a further event would make the server emit after a run from the empty server, and
  the error messages among some events.
\<close>

definition emitted :: "action list \<Rightarrow> action \<Rightarrow> event list option" where
  "emitted as a =
     (case run initial as of None \<Rightarrow> None | Some s \<Rightarrow> map_option fst (handle s a))"

fun errorsOf :: "event list \<Rightarrow> string list" where
  "errorsOf [] = []"
| "errorsOf ((to, Error msg) # evs) = msg # errorsOf evs"
| "errorsOf (ev # evs) = errorsOf evs"

section \<open>Well-formed servers\<close>

text \<open>
  What every run keeps true of a room registered under a code, and of the registry: a
  room is registered under its own code, its member map and its role mapping have each
  key once, its host is one of its members, and it has at most four members, the
  \<open>maxPlayers\<close> it was created with; the registry has each code once.
\<close>

definition roomOk :: "string \<Rightarrow> room \<Rightarrow> bool" where
  "roomOk c r \<longleftrightarrow>
     code r = c \<and> distinct (map fst (players r)) \<and> hostId r \<in> set (map fst (players r)) \<and>
     length (players r) \<le> 4 \<and> maxPlayers (settings r) = 4 \<and>
     distinct (map fst (characters (gameState r)))"

definition serverOk :: "server \<Rightarrow> bool" where
  "serverOk s \<longleftrightarrow>
     distinct (map fst (rooms s)) \<and> list_all (\<lambda>e. roomOk (fst e) (snd e)) (rooms s)"

text \<open>The keys of a room's scores are ids of its members; and the same of every room.\<close>

definition scoresWithin :: "room \<Rightarrow> bool" where
  "scoresWithin r \<longleftrightarrow> set (scoreKeys r) \<subseteq> set (memberIds r)"

definition allScoresWithin :: "server \<Rightarrow> bool" where
  "allScoresWithin s \<longleftrightarrow> list_all (\<lambda>e. scoresWithin (snd e)) (rooms s)"

section \<open>Example runs\<close>

text \<open>
  Two sockets: \<open>s1\<close> creates a room, \<open>s2\<close> joins it, \<open>s1\<close> starts the game. With the
  draws \<open>3, 2, 1\<close> every swap of the shuffle is of a cell with itself, so the labels
  come out in the order Raja, Mantri, Chor, Sipahi.
\<close>

definition lobby2 :: "action list" where
  "lobby2 =
     [Connection ''s1'', Connection ''s2'',
      CreateRoom ''s1'' [''K3X9QZ''] ''Alice'' ''crown'' (Some 3),
      JoinRoom ''s2'' ''K3X9QZ'' ''Bob'' ''mask'']"

definition game2 :: "action list" where
  "game2 = lobby2 @ [StartGame ''s1'' (\<lambda>i. i) ''K3X9QZ'' None]"

text \<open>Rooms written out, for the instances below.\<close>

definition seat :: "string \<Rightarrow> string \<Rightarrow> bool \<Rightarrow> string \<times> player" where
  "seat i nm h = (i, \<lparr>player_id = i, name = nm, avatar = ''pic'', isHost = h, isReady = True\<rparr>)"

text \<open>Four members, game started, roles not yet assigned.\<close>

definition table4 :: room where
  "table4 =
     \<lparr>code = ''K3X9QZ'', hostId = ''s1'',
      players = [seat ''s1'' ''Alice'' True, seat ''s2'' ''Bob'' False,
                 seat ''s3'' ''Chitra'' False, seat ''s4'' ''Dev'' False],
      gameState = \<lparr>status = Playing, currentRound = 1, totalRounds = 3, characters = [],
                   scores = [(''s1'', 0), (''s2'', 0), (''s3'', 0), (''s4'', 0)],
                   sipahiId = None, chorId = None, currentGuess = None, roundResults = None\<rparr>,
      settings = \<lparr>maxPlayers = 4, rounds = 3\<rparr>\<rparr>"

text \<open>Two members after a first round in which \<open>s1\<close> was Sipahi and \<open>s2\<close> was Chor.\<close>

definition table2 :: room where
  "table2 =
     \<lparr>code = ''K3X9QZ'', hostId = ''s1'',
      players = [seat ''s1'' ''Alice'' True, seat ''s2'' ''Bob'' False],
      gameState = \<lparr>status = Playing, currentRound = 2, totalRounds = 3,
                   characters = [(''s1'', Sipahi), (''s2'', Chor)],
                   scores = [(''s1'', 700), (''s2'', 0)],
                   sipahiId = Some ''s1'', chorId = Some ''s2'', currentGuess = None,
                   roundResults = None\<rparr>,
      settings = \<lparr>maxPlayers = 4, rounds = 3\<rparr>\<rparr>"

text \<open>Draws that shuffle the labels to Sipahi, Mantri, Chor, Raja.\<close>

definition drawsSMCR :: "nat \<Rightarrow> nat" where
  "drawsSMCR i = (if i = 3 then 0 else if i = 2 then 2 else 1)"

text \<open>Draws that shuffle the labels to Sipahi, Chor, Mantri, Raja.\<close>

definition drawsSCMR :: "nat \<Rightarrow> nat" where
  "drawsSCMR i = (if i = 3 then 0 else 1)"

text \<open>The four members of \<open>table4\<close> with their roles: Sipahi, Mantri, Chor, Raja.\<close>

definition seated4 :: room where
  "seated4 = assignCharacters drawsSMCR table4"


text \<open>A server whose only room is \<open>seated4\<close>.\<close>

definition hall4 :: server where
  "hall4 =
     \<lparr>rooms = [(''K3X9QZ'', seated4)],
      all_players = [(''s1'', Some ''K3X9QZ''), (''s2'', Some ''K3X9QZ''),
                     (''s3'', Some ''K3X9QZ''), (''s4'', Some ''K3X9QZ'')]\<rparr>"

text \<open>
  A game of two over one round: \<open>s1\<close> is Sipahi, \<open>s2\<close> is Chor, and the host's
  \<^verbatim>\<open>next-round\<close> ends the game.
\<close>

definition over2 :: "action list" where
  "over2 = lobby2 @ [StartGame ''s1'' drawsSCMR ''K3X9QZ'' (Some 1),
                     NextRound ''s1'' (\<lambda>i. i) ''K3X9QZ'']"

text \<open>
  Two members level on points in the last round of three, a server whose only room that
  is (a third socket is connected and in no room), and the same server after the host's
  \<^verbatim>\<open>next-round\<close> has ended the game.
\<close>

definition final2 :: room where
  "final2 = table2\<lparr>gameState := (gameState table2)\<lparr>currentRound := 3,
                        scores := [(''s1'', 900), (''s2'', 900)]\<rparr>\<rparr>"

definition hall2 :: server where
  "hall2 =
     \<lparr>rooms = [(''K3X9QZ'', final2)],
      all_players = [(''s1'', Some ''K3X9QZ''), (''s2'', Some ''K3X9QZ''), (''s3'', None)]\<rparr>"

definition hallOver2 :: server where
  "hallOver2 = snd (nextRound hall2 (\<lambda>i. i) ''s1'' ''K3X9QZ'')"

text \<open>The server after \<open>lobby2\<close>, written out.\<close>

definition foyer2 :: server where
  "foyer2 =
     \<lparr>rooms =
        [(''K3X9QZ'',
          \<lparr>code = ''K3X9QZ'', hostId = ''s1'',
           players =
             [(''s1'', \<lparr>player_id = ''s1'', name = ''Alice'', avatar = ''crown'',
                       isHost = True, isReady = True\<rparr>),
              (''s2'', \<lparr>player_id = ''s2'', name = ''Bob'', avatar = ''mask'',
                       isHost = False, isReady = True\<rparr>)],
           gameState = \<lparr>status = Waiting, currentRound = 1, totalRounds = 3,
                        characters = [], scores = [(''s1'', 0), (''s2'', 0)],
                        sipahiId = None, chorId = None, currentGuess = None,
                        roundResults = None\<rparr>,
           settings = \<lparr>maxPlayers = 4, rounds = 3\<rparr>\<rparr>)],
      all_players = [(''s1'', Some ''K3X9QZ''), (''s2'', Some ''K3X9QZ'')]\<rparr>"

text \<open>One socket creates a room and then a second room.\<close>

definition twoRooms :: "action list" where
  "twoRooms =
     [Connection ''s1'',
      CreateRoom ''s1'' [''K3X9QZ''] ''Alice'' ''crown'' (Some 3),
      CreateRoom ''s1'' [''B7T2MN''] ''Alice'' ''crown'' (Some 3)]"

text \<open>
  A game of three: \<open>s1\<close> is Sipahi, \<open>s2\<close> is Chor, \<open>s3\<close> is Mantri; then \<open>s3\<close>
  disconnects. And a game of two in which \<open>s1\<close> is Sipahi and \<open>s2\<close> is Mantri.
\<close>

definition leak3 :: "action list" where
  "leak3 = lobby2 @ [Connection ''s3'', JoinRoom ''s3'' ''K3X9QZ'' ''Chitra'' ''fan'',
                     StartGame ''s1'' drawsSCMR ''K3X9QZ'' None,
                     Disconnect ''s3'']"

definition noChor2 :: "action list" where
  "noChor2 = lobby2 @ [StartGame ''s1'' drawsSMCR ''K3X9QZ'' None]"

section \<open>The shuffle permutes\<close>

lemma draw_in_range: "i < length xs \<Longrightarrow> rnd i mod (i + 1) < length (xs::'a list)"
proof -
  assume a: "i < length xs"
  have "rnd i mod (i + 1) < i + 1" by simp
  with a show ?thesis by linarith
qed

lemma length_shuffleLoop: "length (shuffleLoop rnd i xs) = length xs"
  by (induction i arbitrary: xs) (simp_all add: Let_def)

lemma set_shuffleLoop: "i < length xs \<Longrightarrow> set (shuffleLoop rnd i xs) = set xs"
proof (induction i arbitrary: xs)
  case 0
  then show ?case by simp
next
  case (Suc i)
  have j: "rnd (Suc i) mod (Suc i + 1) < length xs"
    using Suc.prems by (rule draw_in_range)
  show ?case using Suc j by (simp add: Let_def)
qed

lemma distinct_shuffleLoop: "i < length xs \<Longrightarrow> distinct (shuffleLoop rnd i xs) = distinct xs"
proof (induction i arbitrary: xs)
  case 0
  then show ?case by simp
next
  case (Suc i)
  have j: "rnd (Suc i) mod (Suc i + 1) < length xs"
    using Suc.prems by (rule draw_in_range)
  show ?case using Suc j by (simp add: Let_def)
qed

lemma length_shuffleArray: "length (shuffleArray rnd xs) = length xs"
  by (simp add: shuffleArray_def length_shuffleLoop)

lemma set_shuffleArray: "set (shuffleArray rnd xs) = set xs"
proof (cases xs)
  case Nil
  then show ?thesis by (simp add: shuffleArray_def)
next
  case (Cons x ys)
  then show ?thesis by (simp add: shuffleArray_def set_shuffleLoop del: shuffleLoop.simps)
qed

lemma distinct_shuffleArray: "distinct (shuffleArray rnd xs) = distinct xs"
proof (cases xs)
  case Nil
  then show ?thesis by (simp add: shuffleArray_def)
next
  case (Cons x ys)
  then show ?thesis by (simp add: shuffleArray_def distinct_shuffleLoop del: shuffleLoop.simps)
qed

lemma shuffled_characters:
  "length (shuffleArray rnd allCharacters) = 4"
  "set (shuffleArray rnd allCharacters) = {Raja, Mantri, Chor, Sipahi}"
  "distinct (shuffleArray rnd allCharacters)"
  by (simp_all add: length_shuffleArray set_shuffleArray distinct_shuffleArray)
     (simp_all add: allCharacters_def)

lemma assignOne_frame:
  "status (assignOne sh p i gs) = status gs"
  "currentRound (assignOne sh p i gs) = currentRound gs"
  "totalRounds (assignOne sh p i gs) = totalRounds gs"
  "scores (assignOne sh p i gs) = scores gs"
  "currentGuess (assignOne sh p i gs) = currentGuess gs"
  "roundResults (assignOne sh p i gs) = roundResults gs"
  by (simp_all add: assignOne_def Let_def)

lemma assignFrom_frame:
  "status (assignFrom sh k ids gs) = status gs"
  "currentRound (assignFrom sh k ids gs) = currentRound gs"
  "totalRounds (assignFrom sh k ids gs) = totalRounds gs"
  "scores (assignFrom sh k ids gs) = scores gs"
  "currentGuess (assignFrom sh k ids gs) = currentGuess gs"
  "roundResults (assignFrom sh k ids gs) = roundResults gs"
  by (induction ids arbitrary: k gs; simp add: assignOne_frame)+

lemma assignOne_characters:
  "map_of (characters (assignOne sh p i gs)) = (map_of (characters gs))(p \<mapsto> characterAt sh i)"
  by (simp add: assignOne_def Let_def update_conv')

lemma assignFrom_characters_other:
  "x \<notin> set ids \<Longrightarrow>
   map_of (characters (assignFrom sh k ids gs)) x = map_of (characters gs) x"
  by (induction ids arbitrary: k gs) (simp_all add: assignOne_characters)

lemma assignFrom_characters:
  "distinct ids \<Longrightarrow> n < length ids \<Longrightarrow>
   map_of (characters (assignFrom sh k ids gs)) (ids ! n) = Some (characterAt sh (k + n))"
proof (induction ids arbitrary: k gs n)
  case Nil
  then show ?case by simp
next
  case (Cons p ids)
  show ?case
  proof (cases n)
    case 0
    with Cons.prems show ?thesis
      by (simp add: assignFrom_characters_other assignOne_characters)
  next
    case (Suc m)
    with Cons.prems Cons.IH [of m "Suc k"] show ?thesis by simp
  qed
qed

lemma assignOne_sipahiId:
  "sipahiId (assignOne sh p i gs) = (if characterAt sh i = Sipahi then Some p else sipahiId gs)"
  by (simp add: assignOne_def Let_def)

lemma assignOne_chorId:
  "chorId (assignOne sh p i gs) = (if characterAt sh i = Chor then Some p else chorId gs)"
  by (simp add: assignOne_def Let_def)

lemma assignFrom_sipahiId_kept:
  "\<forall>n<length ids. characterAt sh (k + n) \<noteq> Sipahi \<Longrightarrow>
   sipahiId (assignFrom sh k ids gs) = sipahiId gs"
proof (induction ids arbitrary: k gs)
  case Nil
  then show ?case by simp
next
  case (Cons p ids)
  have here: "characterAt sh k \<noteq> Sipahi" using Cons.prems by force
  have rest: "\<forall>n<length ids. characterAt sh (Suc k + n) \<noteq> Sipahi"
    using Cons.prems by force
  show ?case using Cons.IH [OF rest] here by (simp add: assignOne_sipahiId)
qed

lemma assignFrom_chorId_kept:
  "\<forall>n<length ids. characterAt sh (k + n) \<noteq> Chor \<Longrightarrow>
   chorId (assignFrom sh k ids gs) = chorId gs"
proof (induction ids arbitrary: k gs)
  case Nil
  then show ?case by simp
next
  case (Cons p ids)
  have here: "characterAt sh k \<noteq> Chor" using Cons.prems by force
  have rest: "\<forall>n<length ids. characterAt sh (Suc k + n) \<noteq> Chor"
    using Cons.prems by force
  show ?case using Cons.IH [OF rest] here by (simp add: assignOne_chorId)
qed

lemma assignFrom_sipahiId_set:
  "\<exists>n<length ids. characterAt sh (k + n) = Sipahi \<Longrightarrow>
   \<exists>n<length ids. characterAt sh (k + n) = Sipahi \<and>
      sipahiId (assignFrom sh k ids gs) = Some (ids ! n)"
proof (induction ids arbitrary: k gs)
  case Nil
  then show ?case by simp
next
  case (Cons p ids)
  show ?case
  proof (cases "\<exists>n<length ids. characterAt sh (Suc k + n) = Sipahi")
    case True
    from Cons.IH [OF True, of "assignOne sh p k gs"]
    obtain n where n: "n < length ids" "characterAt sh (Suc k + n) = Sipahi"
      "sipahiId (assignFrom sh (Suc k) ids (assignOne sh p k gs)) = Some (ids ! n)"
      by blast
    then have "Suc n < length (p # ids) \<and> characterAt sh (k + Suc n) = Sipahi \<and>
      sipahiId (assignFrom sh k (p # ids) gs) = Some ((p # ids) ! Suc n)"
      by simp
    then show ?thesis by blast
  next
    case False
    then have rest: "\<forall>n<length ids. characterAt sh (Suc k + n) \<noteq> Sipahi" by blast
    from Cons.prems obtain n where n: "n < length (p # ids)" "characterAt sh (k + n) = Sipahi"
      by blast
    have "n = 0"
    proof (cases n)
      case 0
      then show ?thesis .
    next
      case (Suc m)
      with n rest show ?thesis by auto
    qed
    with n have here: "characterAt sh k = Sipahi" by simp
    have "sipahiId (assignFrom sh k (p # ids) gs) = Some p"
      using assignFrom_sipahiId_kept [OF rest] here by (simp add: assignOne_sipahiId)
    with here have "0 < length (p # ids) \<and> characterAt sh (k + 0) = Sipahi \<and>
      sipahiId (assignFrom sh k (p # ids) gs) = Some ((p # ids) ! 0)"
      by simp
    then show ?thesis by blast
  qed
qed

lemma assignFrom_chorId_set:
  "\<exists>n<length ids. characterAt sh (k + n) = Chor \<Longrightarrow>
   \<exists>n<length ids. characterAt sh (k + n) = Chor \<and>
      chorId (assignFrom sh k ids gs) = Some (ids ! n)"
proof (induction ids arbitrary: k gs)
  case Nil
  then show ?case by simp
next
  case (Cons p ids)
  show ?case
  proof (cases "\<exists>n<length ids. characterAt sh (Suc k + n) = Chor")
    case True
    from Cons.IH [OF True, of "assignOne sh p k gs"]
    obtain n where n: "n < length ids" "characterAt sh (Suc k + n) = Chor"
      "chorId (assignFrom sh (Suc k) ids (assignOne sh p k gs)) = Some (ids ! n)"
      by blast
    then have "Suc n < length (p # ids) \<and> characterAt sh (k + Suc n) = Chor \<and>
      chorId (assignFrom sh k (p # ids) gs) = Some ((p # ids) ! Suc n)"
      by simp
    then show ?thesis by blast
  next
    case False
    then have rest: "\<forall>n<length ids. characterAt sh (Suc k + n) \<noteq> Chor" by blast
    from Cons.prems obtain n where n: "n < length (p # ids)" "characterAt sh (k + n) = Chor"
      by blast
    have "n = 0"
    proof (cases n)
      case 0
      then show ?thesis .
    next
      case (Suc m)
      with n rest show ?thesis by auto
    qed
    with n have here: "characterAt sh k = Chor" by simp
    have "chorId (assignFrom sh k (p # ids) gs) = Some p"
      using assignFrom_chorId_kept [OF rest] here by (simp add: assignOne_chorId)
    with here have "0 < length (p # ids) \<and> characterAt sh (k + 0) = Chor \<and>
      chorId (assignFrom sh k (p # ids) gs) = Some ((p # ids) ! 0)"
      by simp
    then show ?thesis by blast
  qed
qed

lemma assignFrom_role_iff:
  assumes "distinct ids"
  shows "(\<exists>m\<in>set ids. map_of (characters (assignFrom sh 0 ids gs)) m = Some c)
           \<longleftrightarrow> (\<exists>n<length ids. characterAt sh (0 + n) = c)"
proof
  assume "\<exists>m\<in>set ids. map_of (characters (assignFrom sh 0 ids gs)) m = Some c"
  then obtain m where m: "m \<in> set ids" "map_of (characters (assignFrom sh 0 ids gs)) m = Some c"
    by blast
  from m(1) obtain n where n: "n < length ids" "ids ! n = m" by (auto simp: in_set_conv_nth)
  with m(2) assignFrom_characters [OF assms n(1), of sh 0 gs] have "characterAt sh (0 + n) = c"
    by simp
  with n(1) show "\<exists>n<length ids. characterAt sh (0 + n) = c" by blast
next
  assume "\<exists>n<length ids. characterAt sh (0 + n) = c"
  then obtain n where n: "n < length ids" "characterAt sh (0 + n) = c" by blast
  with assignFrom_characters [OF assms n(1), of sh 0 gs]
  have "map_of (characters (assignFrom sh 0 ids gs)) (ids ! n) = Some c" by simp
  with n(1) show "\<exists>m\<in>set ids. map_of (characters (assignFrom sh 0 ids gs)) m = Some c"
    using nth_mem by blast
qed

lemma assignFrom_sipahiId_cases:
  assumes "distinct ids"
  shows "if \<exists>m\<in>set ids. map_of (characters (assignFrom sh 0 ids gs)) m = Some Sipahi
         then \<exists>m\<in>set ids. map_of (characters (assignFrom sh 0 ids gs)) m = Some Sipahi \<and>
                sipahiId (assignFrom sh 0 ids gs) = Some m
         else sipahiId (assignFrom sh 0 ids gs) = sipahiId gs"
proof (cases "\<exists>n<length ids. characterAt sh (0 + n) = Sipahi")
  case True
  from assignFrom_sipahiId_set [OF True, of gs]
  obtain n where n: "n < length ids" "characterAt sh (0 + n) = Sipahi"
    "sipahiId (assignFrom sh 0 ids gs) = Some (ids ! n)" by blast
  from assignFrom_characters [OF assms n(1), of sh 0 gs] n(2)
  have "map_of (characters (assignFrom sh 0 ids gs)) (ids ! n) = Some Sipahi" by simp
  with n(1) n(3) have "\<exists>m\<in>set ids. map_of (characters (assignFrom sh 0 ids gs)) m = Some Sipahi \<and>
                sipahiId (assignFrom sh 0 ids gs) = Some m"
    using nth_mem by blast
  then show ?thesis by auto
next
  case False
  then have no: "\<not> (\<exists>m\<in>set ids. map_of (characters (assignFrom sh 0 ids gs)) m = Some Sipahi)"
    using assignFrom_role_iff [OF assms, of sh gs Sipahi] by simp
  from False have "\<forall>n<length ids. characterAt sh (0 + n) \<noteq> Sipahi" by blast
  from assignFrom_sipahiId_kept [OF this, of gs] no show ?thesis by simp
qed

lemma assignFrom_chorId_cases:
  assumes "distinct ids"
  shows "if \<exists>m\<in>set ids. map_of (characters (assignFrom sh 0 ids gs)) m = Some Chor
         then \<exists>m\<in>set ids. map_of (characters (assignFrom sh 0 ids gs)) m = Some Chor \<and>
                chorId (assignFrom sh 0 ids gs) = Some m
         else chorId (assignFrom sh 0 ids gs) = chorId gs"
proof (cases "\<exists>n<length ids. characterAt sh (0 + n) = Chor")
  case True
  from assignFrom_chorId_set [OF True, of gs]
  obtain n where n: "n < length ids" "characterAt sh (0 + n) = Chor"
    "chorId (assignFrom sh 0 ids gs) = Some (ids ! n)" by blast
  from assignFrom_characters [OF assms n(1), of sh 0 gs] n(2)
  have "map_of (characters (assignFrom sh 0 ids gs)) (ids ! n) = Some Chor" by simp
  with n(1) n(3) have "\<exists>m\<in>set ids. map_of (characters (assignFrom sh 0 ids gs)) m = Some Chor \<and>
                chorId (assignFrom sh 0 ids gs) = Some m"
    using nth_mem by blast
  then show ?thesis by auto
next
  case False
  then have no: "\<not> (\<exists>m\<in>set ids. map_of (characters (assignFrom sh 0 ids gs)) m = Some Chor)"
    using assignFrom_role_iff [OF assms, of sh gs Chor] by simp
  from False have "\<forall>n<length ids. characterAt sh (0 + n) \<noteq> Chor" by blast
  from assignFrom_chorId_kept [OF this, of gs] no show ?thesis by simp
qed

lemma assignFrom_gameState:
  "assignFrom sh k ids gs =
     gs\<lparr>characters := characters (assignFrom sh k ids gs),
        sipahiId := sipahiId (assignFrom sh k ids gs),
        chorId := chorId (assignFrom sh k ids gs)\<rparr>"
  by (rule gameState.equality) (simp_all add: assignFrom_frame)

lemma characterAt_shuffled:
  "n < 4 \<Longrightarrow> characterAt (shuffleArray rnd allCharacters) n = shuffleArray rnd allCharacters ! n"
  by (simp add: characterAt_def shuffled_characters)

lemma assignFrom_roles_distinct:
  assumes d: "distinct ids" and l: "length ids \<le> 4"
    and m: "m \<in> set ids" and m': "m' \<in> set ids"
    and eq: "map_of (characters (assignFrom (shuffleArray rnd allCharacters) 0 ids gs)) m =
             map_of (characters (assignFrom (shuffleArray rnd allCharacters) 0 ids gs)) m'"
  shows "m = m'"
proof -
  let ?sh = "shuffleArray rnd allCharacters"
  from m obtain a where a: "a < length ids" "ids ! a = m" by (auto simp: in_set_conv_nth)
  from m' obtain b where b: "b < length ids" "ids ! b = m'" by (auto simp: in_set_conv_nth)
  have "map_of (characters (assignFrom ?sh 0 ids gs)) m = Some (?sh ! a)"
    using assignFrom_characters [OF d a(1), of ?sh 0 gs] a l by (simp add: characterAt_shuffled)
  moreover have "map_of (characters (assignFrom ?sh 0 ids gs)) m' = Some (?sh ! b)"
    using assignFrom_characters [OF d b(1), of ?sh 0 gs] b l by (simp add: characterAt_shuffled)
  ultimately have "?sh ! a = ?sh ! b" using eq by simp
  moreover have "a < length ?sh" "b < length ?sh" using a b l by (simp_all add: shuffled_characters)
  ultimately have "a = b" using shuffled_characters(3) [of rnd] by (simp add: nth_eq_iff_index_eq)
  with a b show ?thesis by simp
qed

lemma assignFrom_role_present:
  assumes d: "distinct ids" and l: "length ids = 4"
  shows "\<exists>m\<in>set ids. map_of (characters (assignFrom (shuffleArray rnd allCharacters) 0 ids gs)) m = Some c"
proof -
  let ?sh = "shuffleArray rnd allCharacters"
  have "c \<in> set ?sh" by (cases c) (simp_all add: shuffled_characters)
  then obtain n where n: "n < length ?sh" "?sh ! n = c" by (auto simp: in_set_conv_nth)
  then have n4: "n < 4" by (simp add: shuffled_characters)
  then have "characterAt ?sh (0 + n) = c" using n by (simp add: characterAt_shuffled)
  moreover have "n < length ids" using n4 l by simp
  ultimately show ?thesis using assignFrom_role_iff [OF d, of ?sh gs c] by blast
qed


section \<open>Role assignment\<close>

text \<open>
  Claim C10. \<^verbatim>\<open>assignCharacters\<close> overwrites \<open>sipahiId\<close> only when a current member
  receives the Sipahi label in the new shuffle, and then with that member; when no member
  receives it, \<open>sipahiId\<close> keeps the value it had. The same holds for \<open>chorId\<close> and
  Chor. Role entries of ids that are not members stay as they were, and nothing of the
  room changes besides \<open>characters\<close>, \<open>sipahiId\<close> and \<open>chorId\<close> of its game state.
\<close>

theorem assignCharacters_frame:
  assumes "distinct (map fst (players room))"
  shows "let room' = assignCharacters rnd room;
             gs = gameState room; gs' = gameState room';
             members = set (map fst (players room));
             role = map_of (characters gs')
         in (if \<exists>m\<in>members. role m = Some Sipahi
             then \<exists>m\<in>members. role m = Some Sipahi \<and> sipahiId gs' = Some m
             else sipahiId gs' = sipahiId gs) \<and>
            (if \<exists>m\<in>members. role m = Some Chor
             then \<exists>m\<in>members. role m = Some Chor \<and> chorId gs' = Some m
             else chorId gs' = chorId gs) \<and>
            (\<forall>x. x \<notin> members \<longrightarrow> role x = map_of (characters gs) x) \<and>
            gs' = gs\<lparr>characters := characters gs', sipahiId := sipahiId gs',
                      chorId := chorId gs'\<rparr> \<and>
            room' = room\<lparr>gameState := gs'\<rparr>"
proof -
  define ids where "ids = map fst (players room)"
  define sh where "sh = shuffleArray rnd allCharacters"
  define gs' where "gs' = assignFrom sh 0 ids (gameState room)"
  have d: "distinct ids" using assms by (simp add: ids_def)
  have room': "assignCharacters rnd room = room\<lparr>gameState := gs'\<rparr>"
    by (simp add: assignCharacters_def Let_def gs'_def sh_def ids_def)
  have a: "if \<exists>m\<in>set ids. map_of (characters gs') m = Some Sipahi
           then \<exists>m\<in>set ids. map_of (characters gs') m = Some Sipahi \<and> sipahiId gs' = Some m
           else sipahiId gs' = sipahiId (gameState room)"
    unfolding gs'_def by (rule assignFrom_sipahiId_cases [OF d])
  have b: "if \<exists>m\<in>set ids. map_of (characters gs') m = Some Chor
           then \<exists>m\<in>set ids. map_of (characters gs') m = Some Chor \<and> chorId gs' = Some m
           else chorId gs' = chorId (gameState room)"
    unfolding gs'_def by (rule assignFrom_chorId_cases [OF d])
  have c: "\<forall>x. x \<notin> set ids \<longrightarrow> map_of (characters gs') x = map_of (characters (gameState room)) x"
    unfolding gs'_def by (simp add: assignFrom_characters_other)
  have e: "gs' = (gameState room)\<lparr>characters := characters gs', sipahiId := sipahiId gs',
                      chorId := chorId gs'\<rparr>"
    unfolding gs'_def by (rule assignFrom_gameState)
  have f: "gameState (room\<lparr>gameState := gs'\<rparr>) = gs'" by simp
  show ?thesis
    unfolding Let_def room' f ids_def [symmetric]
    using a b c e by blast
qed


text \<open>
  An instance: two members, \<open>s1\<close> recorded as Sipahi and \<open>s2\<close> as Chor by the round
  before. The new shuffle hands out Sipahi and Mantri, so \<open>chorId\<close> keeps \<open>s2\<close>.
\<close>

theorem assignCharacters_frame_witness:
  "distinct (map fst (players table2)) \<and>
   (let room' = assignCharacters drawsSMCR table2;
        gs = gameState table2; gs' = gameState room';
        members = set (map fst (players table2));
        role = map_of (characters gs')
    in (if \<exists>m\<in>members. role m = Some Sipahi
        then \<exists>m\<in>members. role m = Some Sipahi \<and> sipahiId gs' = Some m
        else sipahiId gs' = sipahiId gs) \<and>
       (if \<exists>m\<in>members. role m = Some Chor
        then \<exists>m\<in>members. role m = Some Chor \<and> chorId gs' = Some m
        else chorId gs' = chorId gs) \<and>
       (\<forall>x. x \<notin> members \<longrightarrow> role x = map_of (characters gs) x) \<and>
       gs' = gs\<lparr>characters := characters gs', sipahiId := sipahiId gs',
                 chorId := chorId gs'\<rparr> \<and>
       room' = table2\<lparr>gameState := gs'\<rparr>) \<and>
   map (map_of (characters (gameState (assignCharacters drawsSMCR table2)))) [''s1'', ''s2'']
     = [Some Sipahi, Some Mantri] \<and>
   chorId (gameState (assignCharacters drawsSMCR table2)) = chorId (gameState table2)"
proof -
  have h: "distinct (map fst (players table2))" by code_simp
  have e: "map (map_of (characters (gameState (assignCharacters drawsSMCR table2)))) [''s1'', ''s2'']
     = [Some Sipahi, Some Mantri]" by code_simp
  have c: "chorId (gameState (assignCharacters drawsSMCR table2)) = chorId (gameState table2)"
    by code_simp
  from assignCharacters_frame [OF h, of drawsSMCR] h e c show ?thesis by blast
qed


text \<open>
  Claim C1, as the code has it. After a role assignment in a room of at most four
  members (the bound of \<^verbatim>\<open>join-room\<close>), every member has a role, no two members have the
  same role, and a member holding Sipahi or Chor is the one recorded in \<open>sipahiId\<close> or
  \<open>chorId\<close>; so at most one member holds Sipahi and at most one holds Chor. With exactly
  four members exactly one holds Sipahi and exactly one holds Chor. With two or three
  members the four labels are still shuffled and the last ones are dropped, and Sipahi or
  Chor can be among the dropped.
\<close>

theorem assignCharacters_roles:
  assumes "distinct (map fst (players room))" and "length (players room) \<le> 4"
  shows "let room' = assignCharacters rnd room;
             gs' = gameState room';
             members = set (map fst (players room'));
             role = map_of (characters gs')
         in (\<forall>m\<in>members. role m \<noteq> None) \<and>
            (\<forall>m\<in>members. \<forall>m'\<in>members. role m = role m' \<longrightarrow> m = m') \<and>
            (\<forall>m\<in>members. role m = Some Sipahi \<longrightarrow> sipahiId gs' = Some m) \<and>
            (\<forall>m\<in>members. role m = Some Chor \<longrightarrow> chorId gs' = Some m) \<and>
            (length (players room') = 4 \<longrightarrow>
               (\<exists>!m. m \<in> members \<and> role m = Some Sipahi) \<and>
               (\<exists>!m. m \<in> members \<and> role m = Some Chor))"
proof -
  define ids where "ids = map fst (players room)"
  define sh where "sh = shuffleArray rnd allCharacters"
  define gs' where "gs' = assignFrom sh 0 ids (gameState room)"
  have d: "distinct ids" using assms by (simp add: ids_def)
  have l: "length ids \<le> 4" using assms by (simp add: ids_def)
  have room': "assignCharacters rnd room = room\<lparr>gameState := gs'\<rparr>"
    by (simp add: assignCharacters_def Let_def gs'_def sh_def ids_def)
  have f: "gameState (room\<lparr>gameState := gs'\<rparr>) = gs'"
    "players (room\<lparr>gameState := gs'\<rparr>) = players room" by simp_all
  have len: "length (players room) = length ids" by (simp add: ids_def)
  have total: "\<forall>m\<in>set ids. map_of (characters gs') m \<noteq> None"
  proof
    fix m assume "m \<in> set ids"
    then obtain n where "n < length ids" "ids ! n = m" by (auto simp: in_set_conv_nth)
    with assignFrom_characters [OF d this(1), of sh 0 "gameState room"]
    show "map_of (characters gs') m \<noteq> None" by (simp add: gs'_def)
  qed
  have inj: "\<forall>m\<in>set ids. \<forall>m'\<in>set ids.
      map_of (characters gs') m = map_of (characters gs') m' \<longrightarrow> m = m'"
    unfolding gs'_def sh_def using assignFrom_roles_distinct [OF d l] by blast
  have sip: "\<forall>m\<in>set ids. map_of (characters gs') m = Some Sipahi \<longrightarrow> sipahiId gs' = Some m"
  proof (intro ballI impI)
    fix m assume m: "m \<in> set ids" "map_of (characters gs') m = Some Sipahi"
    then have "\<exists>m\<in>set ids. map_of (characters gs') m = Some Sipahi" by blast
    with assignFrom_sipahiId_cases [OF d, of sh "gameState room"]
    obtain m' where m': "m' \<in> set ids" "map_of (characters gs') m' = Some Sipahi"
      "sipahiId gs' = Some m'" unfolding gs'_def by auto
    with m inj have "m = m'" by simp
    with m' show "sipahiId gs' = Some m" by simp
  qed
  have cho: "\<forall>m\<in>set ids. map_of (characters gs') m = Some Chor \<longrightarrow> chorId gs' = Some m"
  proof (intro ballI impI)
    fix m assume m: "m \<in> set ids" "map_of (characters gs') m = Some Chor"
    then have "\<exists>m\<in>set ids. map_of (characters gs') m = Some Chor" by blast
    with assignFrom_chorId_cases [OF d, of sh "gameState room"]
    obtain m' where m': "m' \<in> set ids" "map_of (characters gs') m' = Some Chor"
      "chorId gs' = Some m'" unfolding gs'_def by auto
    with m inj have "m = m'" by simp
    with m' show "chorId gs' = Some m" by simp
  qed
  have four: "length ids = 4 \<longrightarrow>
               (\<exists>!m. m \<in> set ids \<and> map_of (characters gs') m = Some Sipahi) \<and>
               (\<exists>!m. m \<in> set ids \<and> map_of (characters gs') m = Some Chor)"
  proof
    assume l4: "length ids = 4"
    have ex: "\<exists>m\<in>set ids. map_of (characters gs') m = Some c" for c
      unfolding gs'_def sh_def by (rule assignFrom_role_present [OF d l4])
    have "\<exists>!m. m \<in> set ids \<and> map_of (characters gs') m = Some c" for c
      using ex [of c] inj by (metis (no_types, lifting))
    then show "(\<exists>!m. m \<in> set ids \<and> map_of (characters gs') m = Some Sipahi) \<and>
               (\<exists>!m. m \<in> set ids \<and> map_of (characters gs') m = Some Chor)"
      by blast
  qed
  show ?thesis
    unfolding Let_def room' f len ids_def [symmetric]
    using total inj sip cho four by blast
qed

theorem assignCharacters_roles_witness:
  "distinct (map fst (players table4)) \<and> length (players table4) \<le> 4 \<and>
   (let room' = assignCharacters drawsSMCR table4;
        gs' = gameState room';
        members = set (map fst (players room'));
        role = map_of (characters gs')
    in (\<forall>m\<in>members. role m \<noteq> None) \<and>
       (\<forall>m\<in>members. \<forall>m'\<in>members. role m = role m' \<longrightarrow> m = m') \<and>
       (\<forall>m\<in>members. role m = Some Sipahi \<longrightarrow> sipahiId gs' = Some m) \<and>
       (\<forall>m\<in>members. role m = Some Chor \<longrightarrow> chorId gs' = Some m) \<and>
       (length (players room') = 4 \<longrightarrow>
          (\<exists>!m. m \<in> members \<and> role m = Some Sipahi) \<and>
          (\<exists>!m. m \<in> members \<and> role m = Some Chor))) \<and>
   length (players (assignCharacters drawsSMCR table4)) = 4 \<and>
   map (map_of (characters (gameState (assignCharacters drawsSMCR table4))))
       (map fst (players (assignCharacters drawsSMCR table4)))
     = [Some Sipahi, Some Mantri, Some Chor, Some Raja]"
proof -
  have h: "distinct (map fst (players table4))" by code_simp
  have l: "length (players table4) \<le> 4" by code_simp
  have n: "length (players (assignCharacters drawsSMCR table4)) = 4" by code_simp
  have e: "map (map_of (characters (gameState (assignCharacters drawsSMCR table4))))
       (map fst (players (assignCharacters drawsSMCR table4)))
     = [Some Sipahi, Some Mantri, Some Chor, Some Raja]" by code_simp
  from assignCharacters_roles [OF h l, of drawsSMCR] h l n e show ?thesis by blast
qed


text \<open>
  The claim as stated fails with two members: the game has started, the shuffle leaves the
  labels in their order, \<open>s1\<close> is Raja and \<open>s2\<close> is Mantri, nobody is Sipahi or Chor.
\<close>

theorem assignCharacters_roles_counterexample:
  "map_option (\<lambda>r. (status (gameState r), memberIds r,
                     map (map_of (characters (gameState r))) (memberIds r)))
     (roomAfter game2 ''K3X9QZ'')
   = Some (Playing, [''s1'', ''s2''], [Some Raja, Some Mantri])"
  by code_simp

section \<open>Round results\<close>

lemma scoreOf_alt: "scoreOf sc k = (case map_of sc k of None \<Rightarrow> 0 | Some v \<Rightarrow> v)"
  by (simp add: scoreOf_def orDefault_def split: option.splits)


lemma distinct_zero_fold:
  "distinct (map fst acc) \<Longrightarrow>
   distinct (map fst (fold (\<lambda>playerId pc. AList.update playerId (0::int) pc) ids acc))"
  by (induction ids arbitrary: acc) (simp_all add: distinct_update)

lemma keys_zero_fold:
  "fst ` set (fold (\<lambda>playerId pc. AList.update playerId (0::int) pc) ids acc) =
     set ids \<union> fst ` set acc"
  by (induction ids arbitrary: acc) (auto simp: dom_update)


lemma distinct_initChanges: "distinct (map fst (initChanges ids))"
  by (simp add: initChanges_def distinct_zero_fold)

lemma distinct_awardOne:
  "distinct (map fst pc) \<Longrightarrow> distinct (map fst (awardOne e pc))"
  by (simp add: awardOne_def distinct_update)

lemma distinct_fold_awardOne:
  "distinct (map fst pc) \<Longrightarrow> distinct (map fst (fold awardOne cs pc))"
  by (induction cs arbitrary: pc) (simp_all add: distinct_awardOne)



lemma map_of_addPoints:
  "map_of (addPoints (a, d) sc) k = (if k = a then Some (scoreOf sc a + d) else map_of sc k)"
  by (simp add: addPoints_def update_conv')

lemma map_of_fold_addPoints:
  "distinct (map fst pc) \<Longrightarrow>
   map_of (fold addPoints pc sc) k =
     (case map_of pc k of None \<Rightarrow> map_of sc k | Some d \<Rightarrow> Some (scoreOf sc k + d))"
proof (induction pc arbitrary: sc)
  case Nil
  then show ?case by simp
next
  case (Cons e pc)
  obtain a d where e: "e = (a, d)" by (cases e)
  from Cons.prems e have dis: "distinct (map fst pc)" and a: "a \<notin> fst ` set pc" by simp_all
  from a have none: "map_of pc a = None" by (simp add: map_of_eq_None_iff)
  show ?case
  proof (cases "k = a")
    case True
    with none Cons.IH [OF dis, of "addPoints (a, d) sc"] e show ?thesis
      by (simp add: map_of_addPoints)
  next
    case False
    with Cons.IH [OF dis, of "addPoints (a, d) sc"] e show ?thesis
      by (simp add: map_of_addPoints scoreOf_alt split: option.splits)
  qed
qed

lemma distinct_roundChanges: "distinct (map fst (roundChanges room x))"
  by (simp add: roundChanges_def Let_def distinct_fold_awardOne distinct_update distinct_initChanges)



lemma fst_calculateRoundResults:
  "fst (calculateRoundResults room x) =
     \<lparr>res_sipahiId = sipahiId (gameState room), res_chorId = chorId (gameState room),
      suspectedPlayerId = x, isCorrectGuess = (x = toJs (chorId (gameState room))),
      pointChanges = roundChanges room x\<rparr>"
  by (simp add: calculateRoundResults_def Let_def)




section \<open>Guessing again\<close>

lemma roundChanges_cong:
  "players r' = players r \<Longrightarrow> characters (gameState r') = characters (gameState r) \<Longrightarrow>
   sipahiId (gameState r') = sipahiId (gameState r) \<Longrightarrow>
   chorId (gameState r') = chorId (gameState r) \<Longrightarrow>
   roundChanges r' x = roundChanges r x"
  by (simp add: roundChanges_def Let_def)

lemma makeGuess_accepted:
  assumes "map_of (rooms s) roomCode = Some room"
    and "sipahiId (gameState room) = Some caller"
  shows "makeGuess s caller roomCode x =
     (let res = fst (calculateRoundResults room x);
          room2 = room\<lparr>gameState := (gameState room)\<lparr>
                    scores := fold addPoints (roundChanges room x) (scores (gameState room)),
                    roundResults := Some res\<rparr>\<rparr>
      in ([(ToRoom roomCode,
            RoundResults res (scores (gameState room2)) (characters (gameState room2))
                         (currentRound (gameState room2)))],
          s\<lparr>rooms := AList.update roomCode room2 (rooms s)\<rparr>))"
  using assms
  by (simp add: makeGuess_def calculateRoundResults_def Let_def)

lemma scoreOf_fold_addPoints:
  "scoreOf (fold addPoints (roundChanges room x) sc) k =
     scoreOf sc k + (case map_of (roundChanges room x) k of None \<Rightarrow> 0 | Some d \<Rightarrow> d)"
  by (simp add: scoreOf_alt [of "fold addPoints (roundChanges room x) sc"]
        map_of_fold_addPoints distinct_roundChanges split: option.splits)
     (simp add: scoreOf_alt)

text \<open>
  Claim C9. When the caller is the id recorded as \<open>sipahiId\<close> of the room, any sequence
  of \<^verbatim>\<open>make-guess\<close> events from the caller is accepted: none of them changes the status,
  the round counter or \<open>sipahiId\<close>, each adds the deltas of its guess to the scores again
  (the score of an id, \<open>0\<close> if absent, grows by the sum of its deltas over all the
  guesses), and a further guess is answered with the round results and the full deltas,
  not with an error.
\<close>

theorem makeGuess_repeatable:
  assumes "map_of (rooms s) roomCode = Some room"
    and "sipahiId (gameState room) = Some caller"
  shows "\<exists>s' room'.
           run s (map (MakeGuess caller roomCode) xs) = Some s' \<and>
           map_of (rooms s') roomCode = Some room' \<and>
           status (gameState room') = status (gameState room) \<and>
           currentRound (gameState room') = currentRound (gameState room) \<and>
           sipahiId (gameState room') = Some caller \<and>
           (\<forall>k. scoreOf (scores (gameState room')) k =
                  scoreOf (scores (gameState room)) k +
                  (\<Sum>x\<leftarrow>xs. case map_of (roundChanges room x) k of None \<Rightarrow> 0 | Some d \<Rightarrow> d)) \<and>
           (\<forall>x. \<exists>res sc ch rd.
                  fst (makeGuess s' caller roomCode x) =
                    [(ToRoom roomCode, RoundResults res sc ch rd)] \<and>
                  pointChanges res = roundChanges room x)"
  using assms
proof (induction xs arbitrary: s room)
  case Nil
  have "\<exists>res sc ch rd.
          fst (makeGuess s caller roomCode x) = [(ToRoom roomCode, RoundResults res sc ch rd)] \<and>
          pointChanges res = roundChanges room x" for x
    by (simp add: makeGuess_accepted [OF Nil.prems] Let_def fst_calculateRoundResults)
  with Nil.prems show ?case by simp
next
  case (Cons y ys)
  define room1 where "room1 = room\<lparr>gameState := (gameState room)\<lparr>
                    scores := fold addPoints (roundChanges room y) (scores (gameState room)),
                    roundResults := Some (fst (calculateRoundResults room y))\<rparr>\<rparr>"
  define s1 where "s1 = s\<lparr>rooms := AList.update roomCode room1 (rooms s)\<rparr>"
  have step: "snd (makeGuess s caller roomCode y) = s1"
    by (simp add: makeGuess_accepted [OF Cons.prems] Let_def s1_def room1_def)
  have r1: "map_of (rooms s1) roomCode = Some room1" by (simp add: s1_def update_conv')
  have sip1: "sipahiId (gameState room1) = Some caller"
    using Cons.prems by (simp add: room1_def)
  have same: "roundChanges room1 x = roundChanges room x" for x
    by (rule roundChanges_cong) (simp_all add: room1_def)
  have sc1: "scoreOf (scores (gameState room1)) k =
       scoreOf (scores (gameState room)) k +
       (case map_of (roundChanges room y) k of None \<Rightarrow> 0 | Some d \<Rightarrow> d)" for k
    by (simp add: room1_def scoreOf_fold_addPoints)
  have fr: "status (gameState room1) = status (gameState room)"
    "currentRound (gameState room1) = currentRound (gameState room)"
    by (simp_all add: room1_def)
  from Cons.IH [OF r1 sip1] obtain s' room' where
    ih: "run s1 (map (MakeGuess caller roomCode) ys) = Some s'"
        "map_of (rooms s') roomCode = Some room'"
        "status (gameState room') = status (gameState room1)"
        "currentRound (gameState room') = currentRound (gameState room1)"
        "sipahiId (gameState room') = Some caller"
        "\<forall>k. scoreOf (scores (gameState room')) k =
                  scoreOf (scores (gameState room1)) k +
                  (\<Sum>x\<leftarrow>ys. case map_of (roundChanges room1 x) k of None \<Rightarrow> 0 | Some d \<Rightarrow> d)"
        "\<forall>x. \<exists>res sc ch rd.
                  fst (makeGuess s' caller roomCode x) =
                    [(ToRoom roomCode, RoundResults res sc ch rd)] \<and>
                  pointChanges res = roundChanges room1 x"
    by blast
  have run: "run s (map (MakeGuess caller roomCode) (y # ys)) = Some s'"
    using ih(1) step by (simp add: split_beta)
  have sc: "\<forall>k. scoreOf (scores (gameState room')) k =
                  scoreOf (scores (gameState room)) k +
                  (\<Sum>x\<leftarrow>y # ys. case map_of (roundChanges room x) k of None \<Rightarrow> 0 | Some d \<Rightarrow> d)"
    using ih(6) by (simp add: same sc1)
  show ?case
    using run ih(2) ih(3) ih(4) ih(5) sc ih(7) unfolding same fr by blast
qed

text \<open>
  An instance: three guesses in the same round by the Sipahi of \<open>seated4\<close>, two correct
  and one wrong, and the scores after them.
\<close>

theorem makeGuess_repeatable_witness:
  "map_of (rooms hall4) ''K3X9QZ'' = Some seated4 \<and>
   sipahiId (gameState seated4) = Some ''s1'' \<and>
   (\<exists>s' room'.
       run hall4 (map (MakeGuess ''s1'' ''K3X9QZ'') [Str ''s3'', Str ''s2'', Str ''s3'']) = Some s' \<and>
       map_of (rooms s') ''K3X9QZ'' = Some room' \<and>
       status (gameState room') = status (gameState seated4) \<and>
       currentRound (gameState room') = currentRound (gameState seated4) \<and>
       sipahiId (gameState room') = Some ''s1'' \<and>
       (\<forall>k. scoreOf (scores (gameState room')) k =
              scoreOf (scores (gameState seated4)) k +
              (\<Sum>x\<leftarrow>[Str ''s3'', Str ''s2'', Str ''s3''].
                  case map_of (roundChanges seated4 x) k of None \<Rightarrow> 0 | Some d \<Rightarrow> d)) \<and>
       (\<forall>x. \<exists>res sc ch rd.
              fst (makeGuess s' ''s1'' ''K3X9QZ'' x) =
                [(ToRoom ''K3X9QZ'', RoundResults res sc ch rd)] \<and>
              pointChanges res = roundChanges seated4 x)) \<and>
   map_option (\<lambda>s'. map_option (\<lambda>r. scores (gameState r)) (map_of (rooms s') ''K3X9QZ''))
     (run hall4 (map (MakeGuess ''s1'' ''K3X9QZ'') [Str ''s3'', Str ''s2'', Str ''s3'']))
   = Some (Some [(''s1'', 1400), (''s2'', 2700), (''s3'', 700), (''s4'', 6000)])"
proof -
  have h1: "map_of (rooms hall4) ''K3X9QZ'' = Some seated4" by (simp add: hall4_def)
  have h2: "sipahiId (gameState seated4) = Some ''s1''" by code_simp
  have e: "map_option (\<lambda>s'. map_option (\<lambda>r. scores (gameState r)) (map_of (rooms s') ''K3X9QZ''))
     (run hall4 (map (MakeGuess ''s1'' ''K3X9QZ'') [Str ''s3'', Str ''s2'', Str ''s3'']))
   = Some (Some [(''s1'', 1400), (''s2'', 2700), (''s3'', 700), (''s4'', 6000)])"
    by code_simp
  from makeGuess_repeatable [OF h1 h2, of "[Str ''s3'', Str ''s2'', Str ''s3'']"] h1 h2 e
  show ?thesis by blast
qed

section \<open>Who may guess\<close>

text \<open>
  Claim C3, as the code has it. \<^verbatim>\<open>make-guess\<close> is rejected, with the error
  \<^verbatim>\<open>Not your turn or invalid room\<close> to the caller and the server state unchanged, unless
  the room exists and the caller is the id recorded as its \<open>sipahiId\<close>; in that case the
  guess is resolved and the round results go to the room. The status of the game is not
  looked at.
\<close>

theorem makeGuess_gate:
  "if \<exists>room. map_of (rooms s) roomCode = Some room \<and> sipahiId (gameState room) = Some caller
   then \<exists>res sc ch rd s'.
          makeGuess s caller roomCode x = ([(ToRoom roomCode, RoundResults res sc ch rd)], s')
   else makeGuess s caller roomCode x = ([(ToCaller, Error ''Not your turn or invalid room'')], s)"
proof (cases "\<exists>room. map_of (rooms s) roomCode = Some room \<and> sipahiId (gameState room) = Some caller")
  case True
  then obtain room where r: "map_of (rooms s) roomCode = Some room"
    "sipahiId (gameState room) = Some caller" by blast
  have "\<exists>res sc ch rd s'.
          makeGuess s caller roomCode x = ([(ToRoom roomCode, RoundResults res sc ch rd)], s')"
    using r by (simp add: makeGuess_def Let_def split_beta)
  with True show ?thesis by (simp only: if_True)
next
  case False
  then have "makeGuess s caller roomCode x = ([(ToCaller, Error ''Not your turn or invalid room'')], s)"
    by (auto simp: makeGuess_def split: option.splits)
  with False show ?thesis by (simp only: if_False)
qed

text \<open>
  Two instances in \<open>hall4\<close>: the guess of \<open>s1\<close>, the Sipahi, is resolved; the guess of
  \<open>s2\<close> is rejected and leaves the server as it was.
\<close>

theorem makeGuess_gate_witness:
  "(\<exists>room. map_of (rooms hall4) ''K3X9QZ'' = Some room \<and> sipahiId (gameState room) = Some ''s1'') \<and>
   (\<exists>res sc ch rd s'.
      makeGuess hall4 ''s1'' ''K3X9QZ'' (Str ''s3'') =
        ([(ToRoom ''K3X9QZ'', RoundResults res sc ch rd)], s')) \<and>
   \<not> (\<exists>room. map_of (rooms hall4) ''K3X9QZ'' = Some room \<and> sipahiId (gameState room) = Some ''s2'') \<and>
   makeGuess hall4 ''s2'' ''K3X9QZ'' (Str ''s3'') =
     ([(ToCaller, Error ''Not your turn or invalid room'')], hall4)"
proof -
  have r: "map_of (rooms hall4) ''K3X9QZ'' = Some seated4" by (simp add: hall4_def)
  have sip: "sipahiId (gameState seated4) = Some ''s1''" by code_simp
  from r sip have c1: "\<exists>room. map_of (rooms hall4) ''K3X9QZ'' = Some room \<and>
      sipahiId (gameState room) = Some ''s1''" by simp
  from r sip have c2: "\<not> (\<exists>room. map_of (rooms hall4) ''K3X9QZ'' = Some room \<and>
      sipahiId (gameState room) = Some ''s2'')" by simp
  from makeGuess_gate [of hall4 "''K3X9QZ''" "''s1''" "Str ''s3''"] c1
  have a: "\<exists>res sc ch rd s'.
      makeGuess hall4 ''s1'' ''K3X9QZ'' (Str ''s3'') =
        ([(ToRoom ''K3X9QZ'', RoundResults res sc ch rd)], s')" by (simp only: if_True)
  from makeGuess_gate [of hall4 "''K3X9QZ''" "''s2''" "Str ''s3''"] c2
  have b: "makeGuess hall4 ''s2'' ''K3X9QZ'' (Str ''s3'') =
     ([(ToCaller, Error ''Not your turn or invalid room'')], hall4)" by (simp only: if_False)
  from c1 a c2 b show ?thesis by blast
qed

text \<open>
  The claim as stated fails after the game has finished: in \<open>over2\<close> the status is
  \<^verbatim>\<open>finished\<close>, \<open>s1\<close> is still the recorded Sipahi, and a guess of \<open>s1\<close> is answered
  with the round results, without an error, and raises the score of \<open>s1\<close> by \<open>700\<close>.
\<close>

theorem makeGuess_gate_counterexample:
  "map_option (\<lambda>r. (status (gameState r), sipahiId (gameState r), scores (gameState r)))
     (roomAfter over2 ''K3X9QZ'')
     = Some (Finished, Some ''s1'', [(''s1'', 0), (''s2'', 0)]) \<and>
   map_option (\<lambda>evs. (map fst evs, errorsOf evs))
     (emitted over2 (MakeGuess ''s1'' ''K3X9QZ'' (Str ''s2'')))
     = Some ([ToRoom ''K3X9QZ''], []) \<and>
   map_option (\<lambda>r. (status (gameState r), sipahiId (gameState r), scores (gameState r)))
     (roomAfter (over2 @ [MakeGuess ''s1'' ''K3X9QZ'' (Str ''s2'')]) ''K3X9QZ'')
     = Some (Finished, Some ''s1'', [(''s1'', 700), (''s2'', 0)])"
  by code_simp

section \<open>Joining a room\<close>

lemma find_name_iff:
  "find (\<lambda>p. name p = nm) ps \<noteq> None \<longleftrightarrow> (\<exists>p\<in>set ps. name p = nm)"
  by (auto simp: find_None_iff)

text \<open>
  Claim C4, as the code has it. When the room exists, has fewer members than
  \<open>maxPlayers\<close>, its status is not \<^verbatim>\<open>playing\<close> and no member has the requested name, the
  caller's entry is set in the membership (and a connected caller and the room are
  notified). In every other case the caller receives an error and the server state,
  the membership with it, is unchanged. A room whose game has finished accepts joins.
\<close>

theorem joinRoom_outcome:
  "if \<exists>room. map_of (rooms s) roomCode = Some room \<and>
              length (players room) < maxPlayers (settings room) \<and>
              status (gameState room) \<noteq> Playing \<and>
              (\<forall>p\<in>set (map snd (players room)). name p \<noteq> nm)
   then \<exists>room room'.
          map_of (rooms s) roomCode = Some room \<and>
          map_of (rooms (snd (joinRoom s caller roomCode nm av))) roomCode = Some room' \<and>
          players room' =
            AList.update caller \<lparr>player_id = caller, name = nm, avatar = av,
                                   isHost = False, isReady = True\<rparr> (players room) \<and>
          caller \<in> set (map fst (players room')) \<and>
          (map_of (all_players s) caller \<noteq> None \<longrightarrow>
             fst (joinRoom s caller roomCode nm av) =
               [(ToRoom roomCode, PlayerJoined (map snd (players room')) nm),
                (ToCaller, RoomJoined roomCode (map snd (players room')) (settings room))])
   else \<exists>msg. joinRoom s caller roomCode nm av = ([(ToCaller, Error msg)], s)"
proof (cases "\<exists>room. map_of (rooms s) roomCode = Some room \<and>
              length (players room) < maxPlayers (settings room) \<and>
              status (gameState room) \<noteq> Playing \<and>
              (\<forall>p\<in>set (map snd (players room)). name p \<noteq> nm)")
  case True
  then obtain room where r: "map_of (rooms s) roomCode = Some room"
    "length (players room) < maxPlayers (settings room)"
    "status (gameState room) \<noteq> Playing"
    "\<forall>p\<in>set (map snd (players room)). name p \<noteq> nm" by blast
  from r(4) have nf: "find (\<lambda>p. name p = nm) (map snd (players room)) = None"
    using find_name_iff [of nm "map snd (players room)"] by blast
  define ps where "ps = AList.update caller \<lparr>player_id = caller, name = nm, avatar = av,
                                   isHost = False, isReady = True\<rparr> (players room)"
  define room' where "room' = room\<lparr>players := ps,
     gameState := (gameState room)\<lparr>scores := AList.update caller 0 (scores (gameState room))\<rparr>\<rparr>"
  have look: "map_of (rooms (snd (joinRoom s caller roomCode nm av))) roomCode = Some room'"
    using r(1) r(2) r(3) nf
    by (cases "map_of (all_players s) caller")
       (simp_all add: joinRoom_def Let_def room'_def ps_def update_conv')
  have mem: "caller \<in> set (map fst (players room'))"
    using dom_update [of caller _ "players room"] by (simp add: room'_def ps_def)
  have evs: "map_of (all_players s) caller \<noteq> None \<longrightarrow>
             fst (joinRoom s caller roomCode nm av) =
               [(ToRoom roomCode, PlayerJoined (map snd (players room')) nm),
                (ToCaller, RoomJoined roomCode (map snd (players room')) (settings room))]"
    using r(1) r(2) r(3) nf
    by (cases "map_of (all_players s) caller")
       (simp_all add: joinRoom_def Let_def room'_def ps_def)
  have "players room' = ps" by (simp add: room'_def)
  with r(1) look mem evs have "\<exists>room room'.
          map_of (rooms s) roomCode = Some room \<and>
          map_of (rooms (snd (joinRoom s caller roomCode nm av))) roomCode = Some room' \<and>
          players room' =
            AList.update caller \<lparr>player_id = caller, name = nm, avatar = av,
                                   isHost = False, isReady = True\<rparr> (players room) \<and>
          caller \<in> set (map fst (players room')) \<and>
          (map_of (all_players s) caller \<noteq> None \<longrightarrow>
             fst (joinRoom s caller roomCode nm av) =
               [(ToRoom roomCode, PlayerJoined (map snd (players room')) nm),
                (ToCaller, RoomJoined roomCode (map snd (players room')) (settings room))])"
    unfolding ps_def by blast
  with True show ?thesis by (simp only: if_True)
next
  case False
  have "\<exists>msg. joinRoom s caller roomCode nm av = ([(ToCaller, Error msg)], s)"
  proof (cases "map_of (rooms s) roomCode")
    case None
    then show ?thesis by (simp add: joinRoom_def)
  next
    case (Some room)
    with False have "\<not> length (players room) < maxPlayers (settings room) \<or>
      status (gameState room) = Playing \<or> (\<exists>p\<in>set (map snd (players room)). name p = nm)"
      by blast
    then have "\<not> length (players room) < maxPlayers (settings room) \<or>
      status (gameState room) = Playing \<or>
      find (\<lambda>p. name p = nm) (map snd (players room)) \<noteq> None"
      using find_name_iff [of nm "map snd (players room)"] by blast
    with Some show ?thesis by (auto simp: joinRoom_def)
  qed
  with False show ?thesis by (simp only: if_False)
qed

text \<open>
  Two instances in \<open>hallOver2\<close>, whose game is finished: \<open>s3\<close> joins as Chitra; as Bob,
  a name that is taken, it gets an error and the server stays as it was.
\<close>

theorem joinRoom_outcome_witness:
  "(\<exists>room. map_of (rooms hallOver2) ''K3X9QZ'' = Some room \<and>
       length (players room) < maxPlayers (settings room) \<and>
       status (gameState room) \<noteq> Playing \<and>
       (\<forall>p\<in>set (map snd (players room)). name p \<noteq> ''Chitra'')) \<and>
   (\<exists>room room'.
       map_of (rooms hallOver2) ''K3X9QZ'' = Some room \<and>
       map_of (rooms (snd (joinRoom hallOver2 ''s3'' ''K3X9QZ'' ''Chitra'' ''fan''))) ''K3X9QZ''
         = Some room' \<and>
       players room' =
         AList.update ''s3'' \<lparr>player_id = ''s3'', name = ''Chitra'', avatar = ''fan'',
                               isHost = False, isReady = True\<rparr> (players room) \<and>
       ''s3'' \<in> set (map fst (players room')) \<and>
       (map_of (all_players hallOver2) ''s3'' \<noteq> None \<longrightarrow>
          fst (joinRoom hallOver2 ''s3'' ''K3X9QZ'' ''Chitra'' ''fan'') =
            [(ToRoom ''K3X9QZ'', PlayerJoined (map snd (players room')) ''Chitra''),
             (ToCaller, RoomJoined ''K3X9QZ'' (map snd (players room')) (settings room))])) \<and>
   map_of (all_players hallOver2) ''s3'' \<noteq> None \<and>
   \<not> (\<exists>room. map_of (rooms hallOver2) ''K3X9QZ'' = Some room \<and>
       length (players room) < maxPlayers (settings room) \<and>
       status (gameState room) \<noteq> Playing \<and>
       (\<forall>p\<in>set (map snd (players room)). name p \<noteq> ''Bob'')) \<and>
   (\<exists>msg. joinRoom hallOver2 ''s3'' ''K3X9QZ'' ''Bob'' ''fan'' = ([(ToCaller, Error msg)], hallOver2))"
proof -
  define room0 where "room0 = final2\<lparr>gameState := (gameState final2)\<lparr>currentRound := 4,
                                status := Finished\<rparr>\<rparr>"
  have r: "map_of (rooms hallOver2) ''K3X9QZ'' = Some room0"
    unfolding room0_def by code_simp
  have l: "length (players room0) < maxPlayers (settings room0)"
    unfolding room0_def by code_simp
  have st: "status (gameState room0) \<noteq> Playing"
    unfolding room0_def by code_simp
  have n1: "\<forall>p\<in>set (map snd (players room0)). name p \<noteq> ''Chitra''"
    unfolding room0_def by code_simp
  have n2: "\<not> (\<forall>p\<in>set (map snd (players room0)). name p \<noteq> ''Bob'')"
    unfolding room0_def by code_simp
  from r l st n1 have c1: "\<exists>room. map_of (rooms hallOver2) ''K3X9QZ'' = Some room \<and>
       length (players room) < maxPlayers (settings room) \<and>
       status (gameState room) \<noteq> Playing \<and>
       (\<forall>p\<in>set (map snd (players room)). name p \<noteq> ''Chitra'')" by blast
  from r n2 have c2: "\<not> (\<exists>room. map_of (rooms hallOver2) ''K3X9QZ'' = Some room \<and>
       length (players room) < maxPlayers (settings room) \<and>
       status (gameState room) \<noteq> Playing \<and>
       (\<forall>p\<in>set (map snd (players room)). name p \<noteq> ''Bob''))" by auto
  have conn: "map_of (all_players hallOver2) ''s3'' \<noteq> None" by code_simp
  note a = joinRoom_outcome [of hallOver2 "''K3X9QZ''" "''Chitra''" "''s3''" "''fan''",
      unfolded if_P [OF c1]]
  note b = joinRoom_outcome [of hallOver2 "''K3X9QZ''" "''Bob''" "''s3''" "''fan''",
      unfolded if_not_P [OF c2]]
  from c1 a conn c2 b show ?thesis by blast
qed

text \<open>
  The claim as stated fails for a finished game: after \<open>over2\<close> the status is
  \<^verbatim>\<open>finished\<close>, not \<^verbatim>\<open>waiting\<close>, and a third socket joins without an error.
\<close>

theorem joinRoom_outcome_counterexample:
  "map_option (\<lambda>r. (status (gameState r), memberIds r)) (roomAfter over2 ''K3X9QZ'')
     = Some (Finished, [''s1'', ''s2'']) \<and>
   map_option errorsOf
     (emitted (over2 @ [Connection ''s3'']) (JoinRoom ''s3'' ''K3X9QZ'' ''Chitra'' ''fan''))
     = Some [] \<and>
   map_option (\<lambda>r. (status (gameState r), memberIds r))
     (roomAfter (over2 @ [Connection ''s3'', JoinRoom ''s3'' ''K3X9QZ'' ''Chitra'' ''fan''])
                ''K3X9QZ'')
     = Some (Finished, [''s1'', ''s2'', ''s3''])"
  by code_simp

section \<open>The next round\<close>

lemma sort_key_Nil_iff: "sort_key f xs = [] \<longleftrightarrow> xs = []"
  using length_sort [of f xs] by (metis length_0_conv)

lemma sort_key_first:
  "sort_key f xs = y # ys \<Longrightarrow>
   \<exists>i<length xs. xs ! i = y \<and> (\<forall>j<length xs. f y \<le> f (xs ! j)) \<and> (\<forall>j<i. f y < f (xs ! j))"
proof (induction xs arbitrary: y ys)
  case Nil
  then show ?case by simp
next
  case (Cons x xs)
  show ?case
  proof (cases "sort_key f xs")
    case Nil
    then have "xs = []" by (simp add: sort_key_Nil_iff)
    with Cons.prems have "y = x" by simp
    with \<open>xs = []\<close> show ?thesis by simp
  next
    case (Cons z zs)
    from Cons.IH [OF Cons] obtain i where i: "i < length xs" "xs ! i = z"
      "\<forall>j<length xs. f z \<le> f (xs ! j)" "\<forall>j<i. f z < f (xs ! j)" by blast
    show ?thesis
    proof (cases "f x \<le> f z")
      case True
      with Cons Cons.prems have y: "y = x" by simp
      have "\<forall>j<length (x # xs). f y \<le> f ((x # xs) ! j)"
      proof (intro allI impI)
        fix j assume j: "j < length (x # xs)"
        show "f y \<le> f ((x # xs) ! j)"
        proof (cases j)
          case 0
          with y show ?thesis by simp
        next
          case (Suc m)
          with j i(3) have "f z \<le> f (xs ! m)" by simp
          with True y Suc show ?thesis by simp
        qed
      qed
      with y have "0 < length (x # xs) \<and> (x # xs) ! 0 = y \<and>
        (\<forall>j<length (x # xs). f y \<le> f ((x # xs) ! j)) \<and> (\<forall>j<0. f y < f ((x # xs) ! j))"
        by simp
      then show ?thesis by blast
    next
      case False
      with Cons Cons.prems have y: "y = z" by simp
      from False have lt: "f z < f x" by simp
      have all: "\<forall>j<length (x # xs). f y \<le> f ((x # xs) ! j)"
      proof (intro allI impI)
        fix j assume j: "j < length (x # xs)"
        show "f y \<le> f ((x # xs) ! j)"
        proof (cases j)
          case 0
          with y lt show ?thesis by simp
        next
          case (Suc m)
          with j i(3) y show ?thesis by simp
        qed
      qed
      have before: "\<forall>j<Suc i. f y < f ((x # xs) ! j)"
      proof (intro allI impI)
        fix j assume j: "j < Suc i"
        show "f y < f ((x # xs) ! j)"
        proof (cases j)
          case 0
          with y lt show ?thesis by simp
        next
          case (Suc m)
          with j i(4) y show ?thesis by simp
        qed
      qed
      from i(1) i(2) y all before
      have "Suc i < length (x # xs) \<and> (x # xs) ! Suc i = y \<and>
        (\<forall>j<length (x # xs). f y \<le> f ((x # xs) ! j)) \<and> (\<forall>j<Suc i. f y < f ((x # xs) ! j))"
        by simp
      then show ?thesis by blast
    qed
  qed
qed

lemma winner_first_max:
  assumes "players room \<noteq> []"
  shows "\<exists>i<length (players room).
           winner room = Some (snd (players room ! i),
                               scoreOf (scores (gameState room)) (fst (players room ! i))) \<and>
           (\<forall>j<length (players room).
               scoreOf (scores (gameState room)) (fst (players room ! j))
                 \<le> scoreOf (scores (gameState room)) (fst (players room ! i))) \<and>
           (\<forall>j<i. scoreOf (scores (gameState room)) (fst (players room ! j))
                 < scoreOf (scores (gameState room)) (fst (players room ! i)))"
proof -
  let ?f = "\<lambda>p::player \<times> int. - snd p"
  let ?xs = "scoredPlayers room"
  have len: "length ?xs = length (players room)" by (simp add: scoredPlayers_def)
  have nth: "?xs ! j = (snd (players room ! j),
                        scoreOf (scores (gameState room)) (fst (players room ! j)))"
    if "j < length (players room)" for j
    using that by (simp add: scoredPlayers_def)
  from assms have "?xs \<noteq> []" by (simp add: scoredPlayers_def)
  then have "sort_key ?f ?xs \<noteq> []" by (simp add: sort_key_Nil_iff)
  then obtain w ws where sk: "sort_key ?f ?xs = w # ws" by (cases "sort_key ?f ?xs") auto
  then have win: "winner room = Some w" by (simp add: winner_def)
  from sort_key_first [OF sk] obtain i where i: "i < length ?xs" "?xs ! i = w"
    "\<forall>j<length ?xs. ?f w \<le> ?f (?xs ! j)" "\<forall>j<i. ?f w < ?f (?xs ! j)" by blast
  from i(1) len have il: "i < length (players room)" by simp
  have w: "w = (snd (players room ! i), scoreOf (scores (gameState room)) (fst (players room ! i)))"
    using i(2) nth [OF il] by simp
  have a: "\<forall>j<length (players room).
               scoreOf (scores (gameState room)) (fst (players room ! j))
                 \<le> scoreOf (scores (gameState room)) (fst (players room ! i))"
  proof (intro allI impI)
    fix j assume j: "j < length (players room)"
    with i(3) len have "?f w \<le> ?f (?xs ! j)" by simp
    with nth [OF j] w show "scoreOf (scores (gameState room)) (fst (players room ! j))
                 \<le> scoreOf (scores (gameState room)) (fst (players room ! i))" by simp
  qed
  have b: "\<forall>j<i. scoreOf (scores (gameState room)) (fst (players room ! j))
                 < scoreOf (scores (gameState room)) (fst (players room ! i))"
  proof (intro allI impI)
    fix j assume j: "j < i"
    with il have jl: "j < length (players room)" by simp
    from i(4) j have "?f w < ?f (?xs ! j)" by simp
    with nth [OF jl] w show "scoreOf (scores (gameState room)) (fst (players room ! j))
                 < scoreOf (scores (gameState room)) (fst (players room ! i))" by simp
  qed
  from il win w a b show ?thesis by blast
qed

lemma winner_cong:
  "players r' = players r \<Longrightarrow> scores (gameState r') = scores (gameState r) \<Longrightarrow>
   winner r' = winner r"
  by (simp add: winner_def scoredPlayers_def)

text \<open>
  Claim C6. In a room whose status is \<^verbatim>\<open>playing\<close>, a \<^verbatim>\<open>next-round\<close> of the host (who is a
  member) adds one to the round counter. If the counter then exceeds \<open>totalRounds\<close>,
  the status becomes \<^verbatim>\<open>finished\<close>, nothing else of the room changes, and the winner
  sent with \<^verbatim>\<open>game-finished\<close> is a member whose score (\<open>0\<close> if absent) is the maximum
  over the members and strictly above the score of every member before it in membership
  order. Otherwise the room is the result of \<^verbatim>\<open>assignCharacters\<close> on the room with the
  new counter, its status is still \<^verbatim>\<open>playing\<close>, and the new round and the roles are sent.
\<close>

theorem nextRound_outcome:
  assumes r: "map_of (rooms s) roomCode = Some room"
    and h: "hostId room = caller"
    and p: "status (gameState room) = Playing"
    and m: "caller \<in> set (map fst (players room))"
  shows "let gs = gameState room;
             score = scoreOf (scores gs);
             member = (\<lambda>i. fst (players room ! i));
             (evs, s') = nextRound s rnd caller roomCode
         in if currentRound gs + 1 > totalRounds gs
            then \<exists>room' w.
                   map_of (rooms s') roomCode = Some room' \<and>
                   room' = room\<lparr>gameState := gs\<lparr>currentRound := currentRound gs + 1,
                                                  status := Finished\<rparr>\<rparr> \<and>
                   evs = [(ToRoom roomCode,
                           GameFinished (Some (snd (players room ! w), score (member w)))
                                        (scores gs) (map snd (players room)))] \<and>
                   w < length (players room) \<and>
                   (\<forall>j<length (players room). score (member j) \<le> score (member w)) \<and>
                   (\<forall>j<w. score (member j) < score (member w))
            else \<exists>room'.
                   map_of (rooms s') roomCode = Some room' \<and>
                   room' = assignCharacters rnd
                             (room\<lparr>gameState := gs\<lparr>currentRound := currentRound gs + 1\<rparr>\<rparr>) \<and>
                   status (gameState room') = Playing \<and>
                   currentRound (gameState room') = currentRound gs + 1 \<and>
                   evs = (ToRoom roomCode, RoundStarted (currentRound gs + 1) (totalRounds gs))
                           # characterEvents room'"
proof -
  define gs where "gs = gameState room"
  obtain evs s' where n: "nextRound s rnd caller roomCode = (evs, s')"
    by (cases "nextRound s rnd caller roomCode")
  show ?thesis
  proof (cases "currentRound gs + 1 > totalRounds gs")
    case True
    define room' where "room' = room\<lparr>gameState := gs\<lparr>currentRound := currentRound gs + 1,
                                                  status := Finished\<rparr>\<rparr>"
    from n r h True have s': "s' = s\<lparr>rooms := AList.update roomCode room' (rooms s)\<rparr>"
      and evs: "evs = [(ToRoom roomCode,
                 GameFinished (winner room') (scores gs) (map snd (players room)))]"
      by (auto simp: nextRound_def Let_def gs_def room'_def)
    have look: "map_of (rooms s') roomCode = Some room'" by (simp add: s' update_conv')
    have ne: "players room \<noteq> []" using m by auto
    have wr: "winner room' = winner room"
      by (rule winner_cong) (simp_all add: room'_def gs_def)
    from winner_first_max [OF ne] obtain w where w: "w < length (players room)"
      "winner room = Some (snd (players room ! w), scoreOf (scores gs) (fst (players room ! w)))"
      "\<forall>j<length (players room). scoreOf (scores gs) (fst (players room ! j))
                 \<le> scoreOf (scores gs) (fst (players room ! w))"
      "\<forall>j<w. scoreOf (scores gs) (fst (players room ! j))
                 < scoreOf (scores gs) (fst (players room ! w))"
      unfolding gs_def by blast
    have "\<exists>room' w.
                   map_of (rooms s') roomCode = Some room' \<and>
                   room' = room\<lparr>gameState := gs\<lparr>currentRound := currentRound gs + 1,
                                                  status := Finished\<rparr>\<rparr> \<and>
                   evs = [(ToRoom roomCode,
                           GameFinished (Some (snd (players room ! w),
                                               scoreOf (scores gs) (fst (players room ! w))))
                                        (scores gs) (map snd (players room)))] \<and>
                   w < length (players room) \<and>
                   (\<forall>j<length (players room). scoreOf (scores gs) (fst (players room ! j))
                        \<le> scoreOf (scores gs) (fst (players room ! w))) \<and>
                   (\<forall>j<w. scoreOf (scores gs) (fst (players room ! j))
                        < scoreOf (scores gs) (fst (players room ! w)))"
      using look evs wr w room'_def by auto
    with True show ?thesis
      unfolding Let_def n prod.case gs_def [symmetric] by (simp only: if_True)
  next
    case False
    define room' where "room' = assignCharacters rnd
                             (room\<lparr>gameState := gs\<lparr>currentRound := currentRound gs + 1\<rparr>\<rparr>)"
    from n r h False have s': "s' = s\<lparr>rooms := AList.update roomCode room' (rooms s)\<rparr>"
      and evs: "evs = (ToRoom roomCode, RoundStarted (currentRound (gameState room'))
                                                    (totalRounds (gameState room')))
                       # characterEvents room'"
      by (auto simp: nextRound_def Let_def gs_def room'_def)
    have look: "map_of (rooms s') roomCode = Some room'" by (simp add: s' update_conv')
    have st: "status (gameState room') = Playing"
      "currentRound (gameState room') = currentRound gs + 1"
      "totalRounds (gameState room') = totalRounds gs"
      using p by (simp_all add: room'_def assignCharacters_def Let_def assignFrom_frame gs_def)
    have "\<exists>room'.
                   map_of (rooms s') roomCode = Some room' \<and>
                   room' = assignCharacters rnd
                             (room\<lparr>gameState := gs\<lparr>currentRound := currentRound gs + 1\<rparr>\<rparr>) \<and>
                   status (gameState room') = Playing \<and>
                   currentRound (gameState room') = currentRound gs + 1 \<and>
                   evs = (ToRoom roomCode, RoundStarted (currentRound gs + 1) (totalRounds gs))
                           # characterEvents room'"
      using look evs st room'_def by auto
    with False show ?thesis
      unfolding Let_def n prod.case gs_def [symmetric] by (simp only: if_False)
  qed
qed

text \<open>
  An instance: in \<open>hall2\<close> the two members are level at \<open>900\<close> in the last round, and the
  winner is \<open>s1\<close>, the first member. In \<open>hall4\<close> the counter stays within \<open>totalRounds\<close>
  and the roles are assigned again.
\<close>

theorem nextRound_outcome_witness:
  "map_of (rooms hall2) ''K3X9QZ'' = Some final2 \<and>
   hostId final2 = ''s1'' \<and>
   status (gameState final2) = Playing \<and>
   ''s1'' \<in> set (map fst (players final2)) \<and>
   (let gs = gameState final2;
        score = scoreOf (scores gs);
        member = (\<lambda>i. fst (players final2 ! i));
        (evs, s') = nextRound hall2 (\<lambda>i. i) ''s1'' ''K3X9QZ''
    in if currentRound gs + 1 > totalRounds gs
       then \<exists>room' w.
              map_of (rooms s') ''K3X9QZ'' = Some room' \<and>
              room' = final2\<lparr>gameState := gs\<lparr>currentRound := currentRound gs + 1,
                                               status := Finished\<rparr>\<rparr> \<and>
              evs = [(ToRoom ''K3X9QZ'',
                      GameFinished (Some (snd (players final2 ! w), score (member w)))
                                   (scores gs) (map snd (players final2)))] \<and>
              w < length (players final2) \<and>
              (\<forall>j<length (players final2). score (member j) \<le> score (member w)) \<and>
              (\<forall>j<w. score (member j) < score (member w))
       else \<exists>room'.
              map_of (rooms s') ''K3X9QZ'' = Some room' \<and>
              room' = assignCharacters (\<lambda>i. i)
                        (final2\<lparr>gameState := gs\<lparr>currentRound := currentRound gs + 1\<rparr>\<rparr>) \<and>
              status (gameState room') = Playing \<and>
              currentRound (gameState room') = currentRound gs + 1 \<and>
              evs = (ToRoom ''K3X9QZ'', RoundStarted (currentRound gs + 1) (totalRounds gs))
                      # characterEvents room') \<and>
   currentRound (gameState final2) + 1 > totalRounds (gameState final2) \<and>
   scores (gameState final2) = [(''s1'', 900), (''s2'', 900)] \<and>
   fst (nextRound hall2 (\<lambda>i. i) ''s1'' ''K3X9QZ'') =
     [(ToRoom ''K3X9QZ'',
       GameFinished (Some (snd (seat ''s1'' ''Alice'' True), 900))
                    [(''s1'', 900), (''s2'', 900)]
                    [snd (seat ''s1'' ''Alice'' True), snd (seat ''s2'' ''Bob'' False)])] \<and>
   \<not> currentRound (gameState seated4) + 1 > totalRounds (gameState seated4) \<and>
   map_option (\<lambda>r. (status (gameState r), currentRound (gameState r),
                    characters (gameState r)))
     (map_of (rooms (snd (nextRound hall4 drawsSCMR ''s1'' ''K3X9QZ''))) ''K3X9QZ'')
     = Some (Playing, 2, [(''s1'', Sipahi), (''s2'', Chor), (''s3'', Mantri), (''s4'', Raja)])"
proof -
  have r: "map_of (rooms hall2) ''K3X9QZ'' = Some final2" by (simp add: hall2_def)
  have h: "hostId final2 = ''s1''" by code_simp
  have p: "status (gameState final2) = Playing" by code_simp
  have m: "''s1'' \<in> set (map fst (players final2))" by code_simp
  have c: "currentRound (gameState final2) + 1 > totalRounds (gameState final2)" by code_simp
  have sc: "scores (gameState final2) = [(''s1'', 900), (''s2'', 900)]" by code_simp
  have e: "fst (nextRound hall2 (\<lambda>i. i) ''s1'' ''K3X9QZ'') =
     [(ToRoom ''K3X9QZ'',
       GameFinished (Some (snd (seat ''s1'' ''Alice'' True), 900))
                    [(''s1'', 900), (''s2'', 900)]
                    [snd (seat ''s1'' ''Alice'' True), snd (seat ''s2'' ''Bob'' False)])]"
    by code_simp
  have c4: "\<not> currentRound (gameState seated4) + 1 > totalRounds (gameState seated4)"
    by code_simp
  have e4: "map_option (\<lambda>r. (status (gameState r), currentRound (gameState r),
                    characters (gameState r)))
     (map_of (rooms (snd (nextRound hall4 drawsSCMR ''s1'' ''K3X9QZ''))) ''K3X9QZ'')
     = Some (Playing, 2, [(''s1'', Sipahi), (''s2'', Chor), (''s3'', Mantri), (''s4'', Raja)])"
    by code_simp
  from nextRound_outcome [OF r h p m, of "\<lambda>i. i"] r h p m c sc e c4 e4
  show ?thesis by blast
qed

section \<open>Every run keeps the server well-formed\<close>

lemma list_all_update:
  "list_all P al \<Longrightarrow> P (k, v) \<Longrightarrow> list_all P (AList.update k v al)"
  by (induction al) auto

lemma list_all_delete: "list_all P al \<Longrightarrow> list_all P (AList.delete k al)"
  by (induction al) auto

lemma list_all_lookup: "list_all P al \<Longrightarrow> map_of al k = Some v \<Longrightarrow> P (k, v)"
  by (induction al) (auto split: if_splits)

lemma length_update_le: "length (AList.update k v al) \<le> Suc (length al)"
  by (induction al) auto

lemma serverOk_update:
  "serverOk s \<Longrightarrow> roomOk c r \<Longrightarrow> serverOk (s\<lparr>rooms := AList.update c r (rooms s)\<rparr>)"
  by (simp add: serverOk_def distinct_update list_all_update)

lemma serverOk_delete:
  "serverOk s \<Longrightarrow> serverOk (s\<lparr>rooms := AList.delete c (rooms s)\<rparr>)"
  by (simp add: serverOk_def distinct_delete list_all_delete)

lemma serverOk_lookup:
  "serverOk s \<Longrightarrow> map_of (rooms s) c = Some r \<Longrightarrow> roomOk c r"
  using list_all_lookup [of "\<lambda>e. roomOk (fst e) (snd e)" "rooms s" c r]
  by (simp add: serverOk_def)

lemma serverOk_all_players [simp]:
  "serverOk (s\<lparr>all_players := ap\<rparr>) = serverOk s"
  by (simp add: serverOk_def)

lemma serverOk_initial: "serverOk initial"
  by (simp add: serverOk_def initial_def)

lemma pickRoomCode_free:
  "pickRoomCode rms codes = Some c \<Longrightarrow>
   map_of rms c = None \<and>
   (\<exists>pre post. codes = pre @ c # post \<and> (\<forall>x\<in>set pre. map_of rms x \<noteq> None))"
proof (induction codes)
  case Nil
  then show ?case by simp
next
  case (Cons a codes)
  show ?case
  proof (cases "map_of rms a \<noteq> None")
    case True
    with Cons.prems have "pickRoomCode rms codes = Some c" by simp
    from Cons.IH [OF this] obtain pre post where
      p: "map_of rms c = None" "codes = pre @ c # post" "\<forall>x\<in>set pre. map_of rms x \<noteq> None"
      by blast
    then have "a # codes = (a # pre) @ c # post \<and> (\<forall>x\<in>set (a # pre). map_of rms x \<noteq> None)"
      using True by simp
    with p(1) show ?thesis by blast
  next
    case False
    with Cons.prems have "c = a" by simp
    with False have "map_of rms c = None \<and> a # codes = [] @ c # codes \<and>
      (\<forall>x\<in>set []. map_of rms x \<noteq> None)" by simp
    then show ?thesis by blast
  qed
qed

lemma pickRoomCode_total:
  "\<exists>c\<in>set codes. map_of rms c = None \<Longrightarrow> pickRoomCode rms codes \<noteq> None"
  by (induction codes) auto

lemma createRoom_Some:
  assumes "createRoom rms codes host nm av rnds = Some (room, rms')"
  shows "pickRoomCode rms codes = Some (code room)"
    and "rms' = AList.update (code room) room rms"
    and "hostId room = host"
    and "map fst (players room) = [host]"
    and "roomOk (code room) room"
  using assms
  by (auto simp: createRoom_def Let_def roomOk_def split: option.splits)

lemma createRoomHandler_ok:
  assumes "serverOk s" and "createRoomHandler s codes caller nm av rnds = Some (evs, s')"
  shows "serverOk s'"
proof -
  from assms(2) obtain room rms where c: "createRoom (rooms s) codes caller nm av rnds = Some (room, rms)"
    by (auto simp: createRoomHandler_def split: option.splits)
  from createRoom_Some(2,5) [OF c] assms(1)
  have ok: "serverOk (s\<lparr>rooms := rms\<rparr>)" by (simp add: serverOk_update)
  from assms(2) c have "s' = s\<lparr>rooms := rms\<rparr> \<or>
     s' = s\<lparr>rooms := rms, all_players := AList.update caller (Some (code room)) (all_players s)\<rparr>"
    by (auto simp: createRoomHandler_def Let_def split: option.splits)
  with ok show ?thesis by auto
qed

lemma joinRoom_ok:
  assumes "serverOk s"
  shows "serverOk (snd (joinRoom s caller roomCode nm av))"
proof (cases "map_of (rooms s) roomCode")
  case None
  with assms show ?thesis by (simp add: joinRoom_def)
next
  case (Some room)
  from serverOk_lookup [OF assms Some] have ok: "roomOk roomCode room" .
  define ps where "ps = AList.update caller \<lparr>player_id = caller, name = nm, avatar = av,
                                   isHost = False, isReady = True\<rparr> (players room)"
  define room1 where "room1 = room\<lparr>players := ps,
     gameState := (gameState room)\<lparr>scores := AList.update caller 0 (scores (gameState room))\<rparr>\<rparr>"
  have ok1: "length (players room) < maxPlayers (settings room) \<Longrightarrow> roomOk roomCode room1"
  proof -
    assume l: "length (players room) < maxPlayers (settings room)"
    have "length ps \<le> Suc (length (players room))" by (simp add: ps_def length_update_le)
    with l ok have "length ps \<le> 4" by (simp add: roomOk_def)
    moreover have "distinct (map fst ps)" using ok by (simp add: ps_def roomOk_def distinct_update)
    moreover have "hostId room \<in> set (map fst ps)"
      using ok dom_update [of caller _ "players room"] by (simp add: ps_def roomOk_def)
    ultimately show ?thesis using ok by (simp add: roomOk_def room1_def)
  qed
  show ?thesis
  proof (cases "length (players room) < maxPlayers (settings room) \<and>
                status (gameState room) \<noteq> Playing \<and>
                find (\<lambda>p. name p = nm) (map snd (players room)) = None")
    case True
    then have "snd (joinRoom s caller roomCode nm av) =
        s\<lparr>rooms := AList.update roomCode room1 (rooms s)\<rparr> \<or>
      snd (joinRoom s caller roomCode nm av) =
        s\<lparr>rooms := AList.update roomCode room1 (rooms s),
          all_players := AList.update caller (Some roomCode) (all_players s)\<rparr>"
      using Some by (cases "map_of (all_players s) caller")
        (simp_all add: joinRoom_def Let_def room1_def ps_def)
    with serverOk_update [OF assms ok1] True show ?thesis by auto
  next
    case False
    then have "snd (joinRoom s caller roomCode nm av) = s"
      using Some by (auto simp: joinRoom_def)
    with assms show ?thesis by simp
  qed
qed

lemma distinct_assignFrom:
  "distinct (map fst (characters gs)) \<Longrightarrow>
   distinct (map fst (characters (assignFrom sh k ids gs)))"
  by (induction ids arbitrary: k gs) (simp_all add: assignOne_def Let_def distinct_update)

lemma assignCharacters_ok:
  "roomOk c room \<Longrightarrow> roomOk c (assignCharacters rnd room)"
  by (simp add: roomOk_def assignCharacters_def Let_def distinct_assignFrom)

lemma roomOk_gameState:
  "roomOk c room \<Longrightarrow> characters gs = characters (gameState room) \<Longrightarrow>
   roomOk c (room\<lparr>gameState := gs\<rparr>)"
  by (simp add: roomOk_def)

lemma startGame_ok:
  assumes "serverOk s"
  shows "serverOk (snd (startGame s rnd caller roomCode rnds))"
proof (cases "map_of (rooms s) roomCode")
  case None
  with assms show ?thesis by (simp add: startGame_def)
next
  case (Some room)
  from serverOk_lookup [OF assms Some] have ok: "roomOk roomCode room" .
  show ?thesis
  proof (cases "hostId room \<noteq> caller \<or> length (players room) < 2")
    case True
    with Some assms show ?thesis by (auto simp: startGame_def)
  next
    case False
    then show ?thesis using Some
      by (simp add: startGame_def Let_def serverOk_update [OF assms]
            assignCharacters_ok roomOk_gameState [OF ok])
  qed
qed

lemma makeGuess_ok:
  assumes "serverOk s"
  shows "serverOk (snd (makeGuess s caller roomCode x))"
proof (cases "map_of (rooms s) roomCode")
  case None
  with assms show ?thesis by (simp add: makeGuess_def)
next
  case (Some room)
  from serverOk_lookup [OF assms Some] have ok: "roomOk roomCode room" .
  show ?thesis
  proof (cases "sipahiId (gameState room) = Some caller")
    case True
    then show ?thesis using Some
      by (simp add: makeGuess_def calculateRoundResults_def Let_def
            serverOk_update [OF assms] roomOk_gameState [OF ok])
  next
    case False
    with Some assms show ?thesis by (simp add: makeGuess_def)
  qed
qed

lemma nextRound_ok:
  assumes "serverOk s"
  shows "serverOk (snd (nextRound s rnd caller roomCode))"
proof (cases "map_of (rooms s) roomCode")
  case None
  with assms show ?thesis by (simp add: nextRound_def)
next
  case (Some room)
  from serverOk_lookup [OF assms Some] have ok: "roomOk roomCode room" .
  show ?thesis
  proof (cases "hostId room = caller")
    case True
    then show ?thesis using Some
      by (simp add: nextRound_def Let_def serverOk_update [OF assms]
            assignCharacters_ok roomOk_gameState [OF ok])
  next
    case False
    with Some assms show ?thesis by (simp add: nextRound_def)
  qed
qed

lemma leaveRoom_cases:
  "leaveRoom s caller roomCode room =
     (let rest = AList.delete caller (players room);
          gs = (gameState room)\<lparr>scores := AList.delete caller (scores (gameState room))\<rparr>;
          left = (ToOthersInRoom roomCode, PlayerLeft (map snd rest) caller)
      in if hostId room = caller
         then (case rest of
                 [] \<Rightarrow> ([left], s\<lparr>rooms := AList.delete roomCode (rooms s)\<rparr>)
               | e # es \<Rightarrow>
                   ([left, (ToRoom roomCode,
                            NewHost (fst e) (map snd ((fst e, (snd e)\<lparr>isHost := True\<rparr>) # es)))],
                    s\<lparr>rooms := AList.update roomCode
                        (room\<lparr>gameState := gs, hostId := fst e,
                              players := (fst e, (snd e)\<lparr>isHost := True\<rparr>) # es\<rparr>)
                        (rooms s)\<rparr>))
         else ([left], s\<lparr>rooms := AList.update roomCode
                          (room\<lparr>players := rest, gameState := gs\<rparr>) (rooms s)\<rparr>))"
  by (simp add: leaveRoom_def Let_def split: list.splits)

lemma disconnect_recorded:
  assumes "map_of (all_players s) caller = Some (Some roomCode)" and "roomCode \<noteq> []"
    and "map_of (rooms s) roomCode = Some room"
  shows "snd (disconnect s caller) =
     (snd (leaveRoom s caller roomCode room))\<lparr>all_players :=
        AList.delete caller (all_players (snd (leaveRoom s caller roomCode room)))\<rparr>"
  using assms by (simp add: disconnect_def Let_def split_beta)

lemma host_remains:
  assumes "h \<in> set (map fst al)" and "h \<noteq> k"
  shows "h \<in> set (map fst (AList.delete k al))"
  using assms by (simp add: delete_keys)

lemma sole_member_is_host:
  assumes "h \<in> set (map fst al)" and "AList.delete k al = []"
  shows "h = k"
proof (rule ccontr)
  assume "h \<noteq> k"
  from host_remains [OF assms(1) this] assms(2) show False by simp
qed

lemma leaving_host_member:
  assumes rec: "map_of (all_players s) caller = Some (Some roomCode)"
    and ne: "roomCode \<noteq> []"
    and r: "map_of (rooms s) roomCode = Some room"
    and host: "hostId room \<in> set (map fst (players room))"
  shows "let s' = snd (disconnect s caller);
             rest = AList.delete caller (players room)
         in (rest = [] \<longrightarrow> map_of (rooms s') roomCode = None) \<and>
            (hostId room = caller \<longrightarrow>
               (\<forall>e es. rest = e # es \<longrightarrow>
                  (\<exists>room'. map_of (rooms s') roomCode = Some room' \<and>
                     hostId room' = fst e \<and>
                     players room' = (fst e, (snd e)\<lparr>isHost := True\<rparr>) # es))) \<and>
            (hostId room \<noteq> caller \<longrightarrow>
               (\<exists>room'. map_of (rooms s') roomCode = Some room' \<and>
                  hostId room' = hostId room \<and> players room' = rest)) \<and>
            (\<forall>room'. map_of (rooms s') roomCode = Some room' \<longrightarrow>
                hostId room' \<in> set (map fst (players room')) \<and>
                caller \<notin> set (map fst (players room'))) \<and>
            map_of (all_players s') caller = None"
proof -
  define rest where "rest = AList.delete caller (players room)"
  define s' where "s' = snd (disconnect s caller)"
  define l where "l = snd (leaveRoom s caller roomCode room)"
  have s'l: "rooms s' = rooms l" "all_players s' = AList.delete caller (all_players l)"
    using disconnect_recorded [OF rec ne r] by (simp_all add: s'_def l_def)
  have gone: "map_of (all_players s') caller = None"
    by (simp add: s'l delete_conv')
  have notin: "caller \<notin> set (map fst rest)"
    using delete_notin_dom [of caller "players room"] by (simp add: rest_def)
  have empty: "rest = [] \<longrightarrow> map_of (rooms s') roomCode = None"
  proof
    assume e: "rest = []"
    then have "hostId room = caller"
      using sole_member_is_host [OF host] by (simp add: rest_def)
    with e have "rooms l = AList.delete roomCode (rooms s)"
      by (simp add: l_def leaveRoom_cases Let_def rest_def)
    then show "map_of (rooms s') roomCode = None" by (simp add: s'l delete_conv')
  qed
  have promote: "hostId room = caller \<longrightarrow>
               (\<forall>e es. rest = e # es \<longrightarrow>
                  (\<exists>room'. map_of (rooms s') roomCode = Some room' \<and>
                     hostId room' = fst e \<and>
                     players room' = (fst e, (snd e)\<lparr>isHost := True\<rparr>) # es))"
  proof (intro impI allI)
    fix e es assume h: "hostId room = caller" and re: "rest = e # es"
    from h re have "map_of (rooms l) roomCode =
       Some (room\<lparr>gameState := (gameState room)\<lparr>scores :=
                     AList.delete caller (scores (gameState room))\<rparr>,
                  hostId := fst e, players := (fst e, (snd e)\<lparr>isHost := True\<rparr>) # es\<rparr>)"
      unfolding l_def leaveRoom_cases Let_def rest_def [symmetric]
      by (simp add: update_conv')
    then show "\<exists>room'. map_of (rooms s') roomCode = Some room' \<and>
                     hostId room' = fst e \<and>
                     players room' = (fst e, (snd e)\<lparr>isHost := True\<rparr>) # es"
      by (simp add: s'l)
  qed
  have other: "hostId room \<noteq> caller \<longrightarrow>
               (\<exists>room'. map_of (rooms s') roomCode = Some room' \<and>
                  hostId room' = hostId room \<and> players room' = rest)"
  proof
    assume h: "hostId room \<noteq> caller"
    then have "map_of (rooms l) roomCode =
       Some (room\<lparr>players := rest,
                  gameState := (gameState room)\<lparr>scores :=
                     AList.delete caller (scores (gameState room))\<rparr>\<rparr>)"
      unfolding l_def leaveRoom_cases Let_def rest_def [symmetric]
      by (simp add: update_conv')
    then show "\<exists>room'. map_of (rooms s') roomCode = Some room' \<and>
                  hostId room' = hostId room \<and> players room' = rest"
      by (simp add: s'l)
  qed
  have inv: "\<forall>room'. map_of (rooms s') roomCode = Some room' \<longrightarrow>
                hostId room' \<in> set (map fst (players room')) \<and>
                caller \<notin> set (map fst (players room'))"
  proof (intro allI impI)
    fix room' assume look: "map_of (rooms s') roomCode = Some room'"
    show "hostId room' \<in> set (map fst (players room')) \<and>
          caller \<notin> set (map fst (players room'))"
    proof (cases "hostId room = caller")
      case True
      show ?thesis
      proof (cases rest)
        case Nil
        with empty look show ?thesis by simp
      next
        case (Cons e es)
        with promote True obtain r2 where r2: "map_of (rooms s') roomCode = Some r2"
          "hostId r2 = fst e" "players r2 = (fst e, (snd e)\<lparr>isHost := True\<rparr>) # es" by blast
        with look have "room' = r2" by simp
        with r2 notin Cons show ?thesis by simp
      qed
    next
      case False
      with other obtain r2 where r2: "map_of (rooms s') roomCode = Some r2"
          "hostId r2 = hostId room" "players r2 = rest" by blast
      with look have "room' = r2" by simp
      with r2 notin host_remains [OF host False] show ?thesis by (simp add: rest_def)
    qed
  qed
  show ?thesis
    unfolding Let_def s'_def [symmetric] rest_def [symmetric]
    using empty promote other inv gone by blast
qed

lemma leaveRoom_ok:
  assumes "serverOk s" and "map_of (rooms s) roomCode = Some room"
  shows "serverOk (snd (leaveRoom s caller roomCode room))"
proof -
  from serverOk_lookup [OF assms] have ok: "roomOk roomCode room" .
  define rest where "rest = AList.delete caller (players room)"
  define gs where "gs = (gameState room)\<lparr>scores := AList.delete caller (scores (gameState room))\<rparr>"
  have d: "distinct (map fst rest)" using ok by (simp add: rest_def roomOk_def distinct_delete)
  have l: "length rest \<le> 4"
    using ok length_delete_le [of caller "players room"] by (simp add: rest_def roomOk_def)
  show ?thesis
  proof (cases "hostId room = caller")
    case True
    show ?thesis
    proof (cases rest)
      case Nil
      with True show ?thesis
        unfolding leaveRoom_cases Let_def rest_def [symmetric]
        by (simp add: serverOk_delete [OF assms(1)])
    next
      case (Cons e es)
      have "roomOk roomCode (room\<lparr>gameState := gs, hostId := fst e,
              players := (fst e, (snd e)\<lparr>isHost := True\<rparr>) # es\<rparr>)"
        using ok d l Cons by (simp add: roomOk_def gs_def)
      with True Cons show ?thesis
        unfolding leaveRoom_cases Let_def rest_def [symmetric] gs_def [symmetric]
        by (simp add: serverOk_update [OF assms(1)])
    qed
  next
    case False
    have "hostId room \<in> set (map fst rest)"
      using ok host_remains [of "hostId room" "players room" caller] False
      by (simp add: rest_def roomOk_def)
    then have "roomOk roomCode (room\<lparr>players := rest, gameState := gs\<rparr>)"
      using ok d l by (simp add: roomOk_def gs_def)
    with False show ?thesis
      unfolding leaveRoom_cases Let_def rest_def [symmetric] gs_def [symmetric]
      by (simp add: serverOk_update [OF assms(1)])
  qed
qed

lemma disconnect_ok:
  assumes "serverOk s"
  shows "serverOk (snd (disconnect s caller))"
  using assms leaveRoom_ok [OF assms]
  by (auto simp: disconnect_def Let_def split_beta split: option.splits)

lemma handle_ok:
  assumes "serverOk s" and "handle s a = Some (evs, s')"
  shows "serverOk s'"
proof (cases a)
  case (Connection c)
  with assms show ?thesis by (auto simp: connection_def)
next
  case (CreateRoom c codes nm av rnds)
  with assms createRoomHandler_ok [OF assms(1)] show ?thesis by auto
next
  case (JoinRoom c rc nm av)
  with assms joinRoom_ok [OF assms(1), of c rc nm av] show ?thesis by auto
next
  case (StartGame c rnd rc rnds)
  with assms startGame_ok [OF assms(1), of rnd c rc rnds] show ?thesis by auto
next
  case (MakeGuess c rc x)
  with assms makeGuess_ok [OF assms(1), of c rc x] show ?thesis by auto
next
  case (NextRound c rnd rc)
  with assms nextRound_ok [OF assms(1), of rnd c rc] show ?thesis by auto
next
  case (Disconnect c)
  with assms disconnect_ok [OF assms(1), of c] show ?thesis by auto
qed

lemma run_ok: "serverOk s \<Longrightarrow> run s as = Some s' \<Longrightarrow> serverOk s'"
proof (induction as arbitrary: s)
  case Nil
  then show ?case by simp
next
  case (Cons a as)
  from Cons.prems(2) obtain evs s1 where h: "handle s a = Some (evs, s1)"
    and rest: "run s1 as = Some s'"
    by (auto split: option.splits)
  from Cons.IH [OF handle_ok [OF Cons.prems(1) h] rest] show ?case .
qed

lemma reachable_ok: "run initial as = Some s \<Longrightarrow> serverOk s"
  using run_ok [OF serverOk_initial] .

text \<open>
  So the rooms of a server that a run reaches have what the theorems on single rooms
  assume: distinct member ids, at most four of them, distinct keys of the role mapping.
\<close>

lemma reachable_roomOk:
  "run initial as = Some s \<Longrightarrow> map_of (rooms s) c = Some r \<Longrightarrow> roomOk c r"
  by (rule serverOk_lookup [OF reachable_ok])

section \<open>Room codes\<close>

lemma update_fresh:
  "map_of al k = None \<Longrightarrow> AList.update k v al = al @ [(k, v)]"
  by (induction al) (auto split: if_splits)

lemma createRoomHandler_Some:
  assumes "createRoomHandler s codes caller nm av rnds = Some (evs, s')"
  shows "\<exists>room. createRoom (rooms s) codes caller nm av rnds = Some (room, rooms s')"
  using assms
  by (auto simp: createRoomHandler_def Let_def split: option.splits)

lemma createRoomHandler_total:
  assumes "\<exists>c\<in>set codes. map_of (rooms s) c = None"
  shows "createRoomHandler s codes caller nm av rnds \<noteq> None"
proof -
  from pickRoomCode_total [OF assms]
  have "createRoom (rooms s) codes caller nm av rnds \<noteq> None"
    by (auto simp: createRoom_def Let_def split: option.splits)
  then show ?thesis
    by (auto simp: createRoomHandler_def Let_def split: option.splits)
qed

text \<open>
  Claim C8. When \<^verbatim>\<open>createRoom\<close> returns, the code of the new room is one the registry did
  not have: it is the first of the generated codes that is free, every code generated
  before it was taken. The room is registered under it and every room registered before
  is still registered under its code. The loop ends as soon as one of the generated codes
  is free. In every server state that a run from the empty server reaches, each code is
  registered once and each room is registered under its own code, so no two registered
  rooms share a code. And the \<^verbatim>\<open>create-room\<close> event itself, on any server: the code of the
  room it registers is the first generated code that the server's registry does not
  have, the caller is the host and the only member of that room, the registry afterwards
  is the registry before with the new room added at its end, so every room registered
  before is still registered, unchanged, under its code; and the event is answered as
  soon as one of the generated codes is free in the server's registry.
\<close>

theorem createRoom_fresh_code:
  "(\<forall>room rms'. createRoom rms codes host nm av rnds = Some (room, rms') \<longrightarrow>
       map_of rms (code room) = None \<and>
       (\<exists>pre post. codes = pre @ code room # post \<and> (\<forall>x\<in>set pre. map_of rms x \<noteq> None)) \<and>
       rms' = AList.update (code room) room rms \<and>
       map_of rms' (code room) = Some room \<and>
       (\<forall>c r. map_of rms c = Some r \<longrightarrow> map_of rms' c = Some r)) \<and>
   ((\<exists>c\<in>set codes. map_of rms c = None) \<longrightarrow> createRoom rms codes host nm av rnds \<noteq> None) \<and>
   (\<forall>s. run initial as = Some s \<longrightarrow>
       distinct (map fst (rooms s)) \<and>
       (\<forall>e\<in>set (rooms s). code (snd e) = fst e) \<and>
       distinct (map (\<lambda>e. code (snd e)) (rooms s))) \<and>
   (\<forall>evs t'. handle t (CreateRoom host codes nm av rnds) = Some (evs, t') \<longrightarrow>
       (\<exists>room.
          map_of (rooms t) (code room) = None \<and>
          (\<exists>pre post. codes = pre @ code room # post \<and>
             (\<forall>x\<in>set pre. map_of (rooms t) x \<noteq> None)) \<and>
          hostId room = host \<and> map fst (players room) = [host] \<and>
          rooms t' = rooms t @ [(code room, room)] \<and>
          map_of (rooms t') (code room) = Some room \<and>
          (\<forall>c r. map_of (rooms t) c = Some r \<longrightarrow> map_of (rooms t') c = Some r) \<and>
          (\<forall>c. c \<noteq> code room \<longrightarrow> map_of (rooms t') c = map_of (rooms t) c))) \<and>
   ((\<exists>c\<in>set codes. map_of (rooms t) c = None) \<longrightarrow>
       handle t (CreateRoom host codes nm av rnds) \<noteq> None)"
proof -
  have a: "\<forall>room rms'. createRoom rms codes host nm av rnds = Some (room, rms') \<longrightarrow>
       map_of rms (code room) = None \<and>
       (\<exists>pre post. codes = pre @ code room # post \<and> (\<forall>x\<in>set pre. map_of rms x \<noteq> None)) \<and>
       rms' = AList.update (code room) room rms \<and>
       map_of rms' (code room) = Some room \<and>
       (\<forall>c r. map_of rms c = Some r \<longrightarrow> map_of rms' c = Some r)"
  proof (intro conjI allI impI)
    fix room rms' assume c: "createRoom rms codes host nm av rnds = Some (room, rms')"
    note p = pickRoomCode_free [OF createRoom_Some(1) [OF c]]
    from p show free: "map_of rms (code room) = None" by blast
    from p show "\<exists>pre post. codes = pre @ code room # post \<and> (\<forall>x\<in>set pre. map_of rms x \<noteq> None)"
      by blast
    from createRoom_Some(2) [OF c] show u: "rms' = AList.update (code room) room rms" .
    from u show "map_of rms' (code room) = Some room" by (simp add: update_conv')
    fix k r assume "map_of rms k = Some r"
    with free u show "map_of rms' k = Some r" by (auto simp: update_conv')
  qed
  have b: "(\<exists>c\<in>set codes. map_of rms c = None) \<longrightarrow> createRoom rms codes host nm av rnds \<noteq> None"
  proof
    assume "\<exists>c\<in>set codes. map_of rms c = None"
    from pickRoomCode_total [OF this]
    show "createRoom rms codes host nm av rnds \<noteq> None"
      by (auto simp: createRoom_def Let_def split: option.splits)
  qed
  have c: "\<forall>s. run initial as = Some s \<longrightarrow>
       distinct (map fst (rooms s)) \<and>
       (\<forall>e\<in>set (rooms s). code (snd e) = fst e) \<and>
       distinct (map (\<lambda>e. code (snd e)) (rooms s))"
  proof (intro allI impI conjI)
    fix s assume "run initial as = Some s"
    from reachable_ok [OF this] have ok: "serverOk s" .
    then show d: "distinct (map fst (rooms s))" by (simp add: serverOk_def)
    from ok have own: "\<forall>e\<in>set (rooms s). code (snd e) = fst e"
      by (auto simp: serverOk_def roomOk_def list_all_iff)
    then show "\<forall>e\<in>set (rooms s). code (snd e) = fst e" .
    from own have eq: "map (\<lambda>e. code (snd e)) (rooms s) = map fst (rooms s)" by simp
    show "distinct (map (\<lambda>e. code (snd e)) (rooms s))" unfolding eq by (rule d)
  qed
  have d: "\<forall>evs t'. handle t (CreateRoom host codes nm av rnds) = Some (evs, t') \<longrightarrow>
       (\<exists>room.
          map_of (rooms t) (code room) = None \<and>
          (\<exists>pre post. codes = pre @ code room # post \<and>
             (\<forall>x\<in>set pre. map_of (rooms t) x \<noteq> None)) \<and>
          hostId room = host \<and> map fst (players room) = [host] \<and>
          rooms t' = rooms t @ [(code room, room)] \<and>
          map_of (rooms t') (code room) = Some room \<and>
          (\<forall>c r. map_of (rooms t) c = Some r \<longrightarrow> map_of (rooms t') c = Some r) \<and>
          (\<forall>c. c \<noteq> code room \<longrightarrow> map_of (rooms t') c = map_of (rooms t) c))"
  proof (intro allI impI)
    fix evs t' assume "handle t (CreateRoom host codes nm av rnds) = Some (evs, t')"
    then have "createRoomHandler t codes host nm av rnds = Some (evs, t')" by simp
    from createRoomHandler_Some [OF this] obtain room where
      cr: "createRoom (rooms t) codes host nm av rnds = Some (room, rooms t')" by blast
    note p = pickRoomCode_free [OF createRoom_Some(1) [OF cr]]
    from p have free: "map_of (rooms t) (code room) = None" by blast
    from p have first: "\<exists>pre post. codes = pre @ code room # post \<and>
             (\<forall>x\<in>set pre. map_of (rooms t) x \<noteq> None)" by blast
    from createRoom_Some(2) [OF cr] free
    have app: "rooms t' = rooms t @ [(code room, room)]" by (simp add: update_fresh)
    from createRoom_Some(2) [OF cr]
    have look: "map_of (rooms t') (code room) = Some room" by (simp add: update_conv')
    from createRoom_Some(2) [OF cr]
    have others: "\<forall>c. c \<noteq> code room \<longrightarrow> map_of (rooms t') c = map_of (rooms t) c"
      by (simp add: update_conv')
    from free others have kept: "\<forall>c r. map_of (rooms t) c = Some r \<longrightarrow> map_of (rooms t') c = Some r"
      by (metis option.distinct(1))
    from free first createRoom_Some(3,4) [OF cr] app look kept others
    show "\<exists>room.
          map_of (rooms t) (code room) = None \<and>
          (\<exists>pre post. codes = pre @ code room # post \<and>
             (\<forall>x\<in>set pre. map_of (rooms t) x \<noteq> None)) \<and>
          hostId room = host \<and> map fst (players room) = [host] \<and>
          rooms t' = rooms t @ [(code room, room)] \<and>
          map_of (rooms t') (code room) = Some room \<and>
          (\<forall>c r. map_of (rooms t) c = Some r \<longrightarrow> map_of (rooms t') c = Some r) \<and>
          (\<forall>c. c \<noteq> code room \<longrightarrow> map_of (rooms t') c = map_of (rooms t) c)"
      by (intro exI [of _ room] conjI)
  qed
  have e: "(\<exists>c\<in>set codes. map_of (rooms t) c = None) \<longrightarrow>
       handle t (CreateRoom host codes nm av rnds) \<noteq> None"
    using createRoomHandler_total [of codes t host nm av rnds] by simp
  show ?thesis by (rule conjI [OF a conjI [OF b conjI [OF c conjI [OF d e]]]])
qed

text \<open>
  Instances: the registry of \<open>hall4\<close> has \<open>K3X9QZ\<close>; when that code is generated
  again, it is skipped and the room gets the next one. In \<open>hall2\<close> the socket \<open>s3\<close>
  sends \<^verbatim>\<open>create-room\<close> and the same two codes are generated: the new room is
  registered under \<open>B7T2MN\<close>, and \<open>K3X9QZ\<close> still holds the room it held.
\<close>

theorem createRoom_fresh_code_witness:
  "(\<exists>c\<in>set [''K3X9QZ'', ''B7T2MN'']. map_of (rooms hall4) c = None) \<and>
   (\<exists>room rms'.
       createRoom (rooms hall4) [''K3X9QZ'', ''B7T2MN''] ''s3'' ''Chitra'' ''fan'' None
         = Some (room, rms') \<and>
       map_of (rooms hall4) (code room) = None \<and>
       (\<exists>pre post. [''K3X9QZ'', ''B7T2MN''] = pre @ code room # post \<and>
          (\<forall>x\<in>set pre. map_of (rooms hall4) x \<noteq> None)) \<and>
       rms' = AList.update (code room) room (rooms hall4) \<and>
       map_of rms' (code room) = Some room \<and>
       (\<forall>c r. map_of (rooms hall4) c = Some r \<longrightarrow> map_of rms' c = Some r)) \<and>
   map_option (\<lambda>p. (code (fst p), map fst (snd p)))
     (createRoom (rooms hall4) [''K3X9QZ'', ''B7T2MN''] ''s3'' ''Chitra'' ''fan'' None)
     = Some (''B7T2MN'', [''K3X9QZ'', ''B7T2MN'']) \<and>
   (\<exists>s. run initial twoRooms = Some s \<and>
       distinct (map fst (rooms s)) \<and>
       (\<forall>e\<in>set (rooms s). code (snd e) = fst e) \<and>
       distinct (map (\<lambda>e. code (snd e)) (rooms s)) \<and>
       map fst (rooms s) = [''K3X9QZ'', ''B7T2MN'']) \<and>
   (\<exists>c\<in>set [''K3X9QZ'', ''B7T2MN'']. map_of (rooms hall2) c = None) \<and>
   map_of (rooms hall2) ''K3X9QZ'' = Some final2 \<and>
   (\<exists>evs t' room.
       handle hall2 (CreateRoom ''s3'' [''K3X9QZ'', ''B7T2MN''] ''Chitra'' ''fan'' None)
         = Some (evs, t') \<and>
       map_of (rooms hall2) (code room) = None \<and>
       (\<exists>pre post. [''K3X9QZ'', ''B7T2MN''] = pre @ code room # post \<and>
          (\<forall>x\<in>set pre. map_of (rooms hall2) x \<noteq> None)) \<and>
       hostId room = ''s3'' \<and> map fst (players room) = [''s3''] \<and>
       rooms t' = rooms hall2 @ [(code room, room)] \<and>
       map_of (rooms t') (code room) = Some room \<and>
       map_of (rooms t') ''K3X9QZ'' = Some final2) \<and>
   map_option (\<lambda>p. (errorsOf (fst p), map fst (rooms (snd p)),
                     map_of (all_players (snd p)) ''s3''))
     (handle hall2 (CreateRoom ''s3'' [''K3X9QZ'', ''B7T2MN''] ''Chitra'' ''fan'' None))
     = Some ([], [''K3X9QZ'', ''B7T2MN''], Some (Some ''B7T2MN''))"
proof -
  note t = createRoom_fresh_code [of "rooms hall4" "[''K3X9QZ'', ''B7T2MN'']" "''s3''"
      "''Chitra''" "''fan''" None twoRooms hall2]
  note t1 = t [THEN conjunct1, rule_format]
  note t2 = t [THEN conjunct2, THEN conjunct1, rule_format]
  note t3 = t [THEN conjunct2, THEN conjunct2, THEN conjunct1, rule_format]
  note t4 = t [THEN conjunct2, THEN conjunct2, THEN conjunct2, THEN conjunct1, rule_format]
  note t5 = t [THEN conjunct2, THEN conjunct2, THEN conjunct2, THEN conjunct2, rule_format]
  have f: "\<exists>c\<in>set [''K3X9QZ'', ''B7T2MN'']. map_of (rooms hall4) c = None" by code_simp
  have e: "map_option (\<lambda>p. (code (fst p), map fst (snd p)))
     (createRoom (rooms hall4) [''K3X9QZ'', ''B7T2MN''] ''s3'' ''Chitra'' ''fan'' None)
     = Some (''B7T2MN'', [''K3X9QZ'', ''B7T2MN''])" by code_simp
  from t2 [OF f] obtain p where
    "createRoom (rooms hall4) [''K3X9QZ'', ''B7T2MN''] ''s3'' ''Chitra'' ''fan'' None = Some p"
    by (cases "createRoom (rooms hall4) [''K3X9QZ'', ''B7T2MN''] ''s3'' ''Chitra'' ''fan'' None")
       simp_all
  then obtain room rms' where
    c: "createRoom (rooms hall4) [''K3X9QZ'', ''B7T2MN''] ''s3'' ''Chitra'' ''fan'' None
          = Some (room, rms')" by (cases p) simp
  have ks: "map_option (\<lambda>s. map fst (rooms s)) (run initial twoRooms)
      = Some [''K3X9QZ'', ''B7T2MN'']" by code_simp
  then obtain s where s: "run initial twoRooms = Some s"
    by (cases "run initial twoRooms") simp_all
  with ks have k: "map fst (rooms s) = [''K3X9QZ'', ''B7T2MN'']" by simp
  have a: "\<exists>room rms'.
       createRoom (rooms hall4) [''K3X9QZ'', ''B7T2MN''] ''s3'' ''Chitra'' ''fan'' None
         = Some (room, rms') \<and>
       map_of (rooms hall4) (code room) = None \<and>
       (\<exists>pre post. [''K3X9QZ'', ''B7T2MN''] = pre @ code room # post \<and>
          (\<forall>x\<in>set pre. map_of (rooms hall4) x \<noteq> None)) \<and>
       rms' = AList.update (code room) room (rooms hall4) \<and>
       map_of rms' (code room) = Some room \<and>
       (\<forall>c r. map_of (rooms hall4) c = Some r \<longrightarrow> map_of rms' c = Some r)"
    using c t1 [OF c] by (intro exI [of _ room] exI [of _ rms']) blast
  note d = t3 [OF s]
  have b: "\<exists>s. run initial twoRooms = Some s \<and>
       distinct (map fst (rooms s)) \<and>
       (\<forall>e\<in>set (rooms s). code (snd e) = fst e) \<and>
       distinct (map (\<lambda>e. code (snd e)) (rooms s)) \<and>
       map fst (rooms s) = [''K3X9QZ'', ''B7T2MN'']"
    by (rule exI [of _ s])
       (rule conjI [OF s conjI [OF d [THEN conjunct1] conjI [OF d [THEN conjunct2, THEN conjunct1]
          conjI [OF d [THEN conjunct2, THEN conjunct2] k]]]])
  have f2: "\<exists>c\<in>set [''K3X9QZ'', ''B7T2MN'']. map_of (rooms hall2) c = None" by code_simp
  have live: "map_of (rooms hall2) ''K3X9QZ'' = Some final2" by (simp add: hall2_def)
  from t5 [OF f2] obtain q where
    "handle hall2 (CreateRoom ''s3'' [''K3X9QZ'', ''B7T2MN''] ''Chitra'' ''fan'' None) = Some q"
    by (cases "handle hall2 (CreateRoom ''s3'' [''K3X9QZ'', ''B7T2MN''] ''Chitra'' ''fan'' None)")
       simp_all
  then obtain evs t' where
    h: "handle hall2 (CreateRoom ''s3'' [''K3X9QZ'', ''B7T2MN''] ''Chitra'' ''fan'' None)
          = Some (evs, t')" by (cases q) simp
  from t4 [OF h] obtain room2 where
    r: "map_of (rooms hall2) (code room2) = None \<and>
        (\<exists>pre post. [''K3X9QZ'', ''B7T2MN''] = pre @ code room2 # post \<and>
          (\<forall>x\<in>set pre. map_of (rooms hall2) x \<noteq> None)) \<and>
        hostId room2 = ''s3'' \<and> map fst (players room2) = [''s3''] \<and>
        rooms t' = rooms hall2 @ [(code room2, room2)] \<and>
        map_of (rooms t') (code room2) = Some room2 \<and>
        (\<forall>c r. map_of (rooms hall2) c = Some r \<longrightarrow> map_of (rooms t') c = Some r) \<and>
        (\<forall>c. c \<noteq> code room2 \<longrightarrow> map_of (rooms t') c = map_of (rooms hall2) c)"
    by (rule exE)
  note r2 = r [THEN conjunct1] r [THEN conjunct2, THEN conjunct1]
    r [THEN conjunct2, THEN conjunct2, THEN conjunct1]
    r [THEN conjunct2, THEN conjunct2, THEN conjunct2, THEN conjunct1]
    r [THEN conjunct2, THEN conjunct2, THEN conjunct2, THEN conjunct2, THEN conjunct1]
    r [THEN conjunct2, THEN conjunct2, THEN conjunct2, THEN conjunct2, THEN conjunct2,
       THEN conjunct1]
    r [THEN conjunct2, THEN conjunct2, THEN conjunct2, THEN conjunct2, THEN conjunct2,
       THEN conjunct2, THEN conjunct1]
  have kept: "map_of (rooms t') ''K3X9QZ'' = Some final2"
    by (rule r2(7) [rule_format, OF live])
  have g: "\<exists>evs t' room.
       handle hall2 (CreateRoom ''s3'' [''K3X9QZ'', ''B7T2MN''] ''Chitra'' ''fan'' None)
         = Some (evs, t') \<and>
       map_of (rooms hall2) (code room) = None \<and>
       (\<exists>pre post. [''K3X9QZ'', ''B7T2MN''] = pre @ code room # post \<and>
          (\<forall>x\<in>set pre. map_of (rooms hall2) x \<noteq> None)) \<and>
       hostId room = ''s3'' \<and> map fst (players room) = [''s3''] \<and>
       rooms t' = rooms hall2 @ [(code room, room)] \<and>
       map_of (rooms t') (code room) = Some room \<and>
       map_of (rooms t') ''K3X9QZ'' = Some final2"
    by (rule exI [of _ evs], rule exI [of _ t'], rule exI [of _ room2])
       (rule conjI [OF h conjI [OF r2(1) conjI [OF r2(2) conjI [OF r2(3) conjI [OF r2(4)
          conjI [OF r2(5) conjI [OF r2(6) kept]]]]]]])
  have ev: "map_option (\<lambda>p. (errorsOf (fst p), map fst (rooms (snd p)),
                     map_of (all_players (snd p)) ''s3''))
     (handle hall2 (CreateRoom ''s3'' [''K3X9QZ'', ''B7T2MN''] ''Chitra'' ''fan'' None))
     = Some ([], [''K3X9QZ'', ''B7T2MN''], Some (Some ''B7T2MN''))" by code_simp
  show ?thesis
    by (rule conjI [OF f conjI [OF a conjI [OF e conjI [OF b conjI [OF f2 conjI [OF live
          conjI [OF g ev]]]]]]])
qed

section \<open>Leaving\<close>

text \<open>
  Claim C7, as the code has it. For a disconnect, in a server state that a run from the
  empty server reaches, of a socket whose recorded room code is not empty and is
  registered: if no other member remains in that room, the room is removed from the
  registry; if the socket was the host and others remain, the first remaining member in
  membership order becomes the host, with its \<open>isHost\<close> flag set, and the other entries
  stay as they are; if the socket was not the host, the host stays. In every case the
  host of the room, if it is still registered, is one of its members, the socket is not,
  and the socket's own record is gone.
\<close>

theorem disconnect_cleanup:
  assumes reach: "run initial as = Some s"
    and rec: "map_of (all_players s) caller = Some (Some roomCode)"
    and ne: "roomCode \<noteq> []"
    and r: "map_of (rooms s) roomCode = Some room"
  shows "let s' = snd (disconnect s caller);
             rest = AList.delete caller (players room)
         in (rest = [] \<longrightarrow> map_of (rooms s') roomCode = None) \<and>
            (hostId room = caller \<longrightarrow>
               (\<forall>e es. rest = e # es \<longrightarrow>
                  (\<exists>room'. map_of (rooms s') roomCode = Some room' \<and>
                     hostId room' = fst e \<and>
                     players room' = (fst e, (snd e)\<lparr>isHost := True\<rparr>) # es))) \<and>
            (hostId room \<noteq> caller \<longrightarrow>
               (\<exists>room'. map_of (rooms s') roomCode = Some room' \<and>
                  hostId room' = hostId room \<and> players room' = rest)) \<and>
            (\<forall>room'. map_of (rooms s') roomCode = Some room' \<longrightarrow>
                hostId room' \<in> set (map fst (players room')) \<and>
                caller \<notin> set (map fst (players room'))) \<and>
            map_of (all_players s') caller = None"
proof -
  from serverOk_lookup [OF reachable_ok [OF reach] r]
  have "hostId room \<in> set (map fst (players room))" by (simp add: roomOk_def)
  from leaving_host_member [OF rec ne r this] show ?thesis .
qed

text \<open>
  Two instances: in \<open>foyer2\<close> the host \<open>s1\<close> disconnects and \<open>s2\<close> becomes the host;
  then \<open>s2\<close>, the only member left, disconnects and the room is removed.
\<close>

theorem disconnect_cleanup_witness:
  "run initial lobby2 = Some foyer2 \<and>
   map_of (all_players foyer2) ''s1'' = Some (Some ''K3X9QZ'') \<and>
   ''K3X9QZ'' \<noteq> [] \<and>
   (\<exists>room. map_of (rooms foyer2) ''K3X9QZ'' = Some room \<and>
      (let s' = snd (disconnect foyer2 ''s1'');
           rest = AList.delete ''s1'' (players room)
       in (rest = [] \<longrightarrow> map_of (rooms s') ''K3X9QZ'' = None) \<and>
          (hostId room = ''s1'' \<longrightarrow>
             (\<forall>e es. rest = e # es \<longrightarrow>
                (\<exists>room'. map_of (rooms s') ''K3X9QZ'' = Some room' \<and>
                   hostId room' = fst e \<and>
                   players room' = (fst e, (snd e)\<lparr>isHost := True\<rparr>) # es))) \<and>
          (hostId room \<noteq> ''s1'' \<longrightarrow>
             (\<exists>room'. map_of (rooms s') ''K3X9QZ'' = Some room' \<and>
                hostId room' = hostId room \<and> players room' = rest)) \<and>
          (\<forall>room'. map_of (rooms s') ''K3X9QZ'' = Some room' \<longrightarrow>
              hostId room' \<in> set (map fst (players room')) \<and>
              ''s1'' \<notin> set (map fst (players room'))) \<and>
          map_of (all_players s') ''s1'' = None)) \<and>
   map_option (\<lambda>r. (hostId r, players r))
     (map_of (rooms (snd (disconnect foyer2 ''s1''))) ''K3X9QZ'')
     = Some (''s2'', [(''s2'', \<lparr>player_id = ''s2'', name = ''Bob'', avatar = ''mask'',
                                  isHost = True, isReady = True\<rparr>)]) \<and>
   run initial (lobby2 @ [Disconnect ''s1'']) = Some (snd (disconnect foyer2 ''s1'')) \<and>
   map_of (all_players (snd (disconnect foyer2 ''s1''))) ''s2'' = Some (Some ''K3X9QZ'') \<and>
   (\<exists>room. map_of (rooms (snd (disconnect foyer2 ''s1''))) ''K3X9QZ'' = Some room \<and>
      AList.delete ''s2'' (players room) = [] \<and>
      (AList.delete ''s2'' (players room) = [] \<longrightarrow>
         map_of (rooms (snd (disconnect (snd (disconnect foyer2 ''s1'')) ''s2''))) ''K3X9QZ''
           = None)) \<and>
   rooms (snd (disconnect (snd (disconnect foyer2 ''s1'')) ''s2'')) = []"
proof -
  have reach: "run initial lobby2 = Some foyer2" by code_simp
  have rec: "map_of (all_players foyer2) ''s1'' = Some (Some ''K3X9QZ'')" by code_simp
  have ne: "''K3X9QZ'' \<noteq> []" by simp
  obtain room0 where r: "map_of (rooms foyer2) ''K3X9QZ'' = Some room0"
    by (simp add: foyer2_def)
  have e1: "map_option (\<lambda>r. (hostId r, players r))
     (map_of (rooms (snd (disconnect foyer2 ''s1''))) ''K3X9QZ'')
     = Some (''s2'', [(''s2'', \<lparr>player_id = ''s2'', name = ''Bob'', avatar = ''mask'',
                                  isHost = True, isReady = True\<rparr>)])" by code_simp
  have reach2: "run initial (lobby2 @ [Disconnect ''s1'']) = Some (snd (disconnect foyer2 ''s1''))"
    by code_simp
  have rec2: "map_of (all_players (snd (disconnect foyer2 ''s1''))) ''s2'' = Some (Some ''K3X9QZ'')"
    by code_simp
  define room1 where "room1 = \<lparr>code = ''K3X9QZ'', hostId = ''s2'',
           players =
             [(''s2'', \<lparr>player_id = ''s2'', name = ''Bob'', avatar = ''mask'',
                       isHost = True, isReady = True\<rparr>)],
           gameState = \<lparr>status = Waiting, currentRound = 1, totalRounds = 3,
                        characters = [], scores = [(''s2'', 0)],
                        sipahiId = None, chorId = None, currentGuess = None,
                        roundResults = None\<rparr>,
           settings = \<lparr>maxPlayers = 4, rounds = 3\<rparr>\<rparr>"
  have r2: "map_of (rooms (snd (disconnect foyer2 ''s1''))) ''K3X9QZ'' = Some room1"
    unfolding room1_def by code_simp
  have sole: "AList.delete ''s2'' (players room1) = []"
    unfolding room1_def by code_simp
  have e2: "rooms (snd (disconnect (snd (disconnect foyer2 ''s1'')) ''s2'')) = []"
    by code_simp
  note a = disconnect_cleanup [OF reach rec ne r]
  note b = disconnect_cleanup [OF reach2 rec2 ne r2, unfolded Let_def]
  from r a have a': "\<exists>room. map_of (rooms foyer2) ''K3X9QZ'' = Some room \<and>
      (let s' = snd (disconnect foyer2 ''s1'');
           rest = AList.delete ''s1'' (players room)
       in (rest = [] \<longrightarrow> map_of (rooms s') ''K3X9QZ'' = None) \<and>
          (hostId room = ''s1'' \<longrightarrow>
             (\<forall>e es. rest = e # es \<longrightarrow>
                (\<exists>room'. map_of (rooms s') ''K3X9QZ'' = Some room' \<and>
                   hostId room' = fst e \<and>
                   players room' = (fst e, (snd e)\<lparr>isHost := True\<rparr>) # es))) \<and>
          (hostId room \<noteq> ''s1'' \<longrightarrow>
             (\<exists>room'. map_of (rooms s') ''K3X9QZ'' = Some room' \<and>
                hostId room' = hostId room \<and> players room' = rest)) \<and>
          (\<forall>room'. map_of (rooms s') ''K3X9QZ'' = Some room' \<longrightarrow>
              hostId room' \<in> set (map fst (players room')) \<and>
              ''s1'' \<notin> set (map fst (players room'))) \<and>
          map_of (all_players s') ''s1'' = None)" by blast
  from r2 sole b have b': "\<exists>room. map_of (rooms (snd (disconnect foyer2 ''s1''))) ''K3X9QZ'' = Some room \<and>
      AList.delete ''s2'' (players room) = [] \<and>
      (AList.delete ''s2'' (players room) = [] \<longrightarrow>
         map_of (rooms (snd (disconnect (snd (disconnect foyer2 ''s1'')) ''s2''))) ''K3X9QZ''
           = None)" by blast
  from reach rec ne a' e1 reach2 rec2 b' e2 show ?thesis by blast
qed

text \<open>
  The claim as stated fails for a room that is not the one recorded for the socket. The
  server records one room code per socket, the last one, and \<^verbatim>\<open>create-room\<close> and
  \<^verbatim>\<open>join-room\<close> overwrite it. In \<open>twoRooms\<close> the socket \<open>s1\<close> is the only member of
  \<open>K3X9QZ\<close> and of \<open>B7T2MN\<close>; when it disconnects, only \<open>B7T2MN\<close> is removed, and
  \<open>K3X9QZ\<close> stays registered with \<open>s1\<close> as its member and host.
\<close>

theorem disconnect_cleanup_counterexample:
  "map_option (\<lambda>s. (map fst (all_players s), map fst (rooms s))) (run initial twoRooms)
     = Some ([''s1''], [''K3X9QZ'', ''B7T2MN'']) \<and>
   map_option (\<lambda>r. (hostId r, memberIds r)) (roomAfter twoRooms ''K3X9QZ'')
     = Some (''s1'', [''s1'']) \<and>
   map_option (\<lambda>s. (map fst (all_players s), map fst (rooms s)))
     (run initial (twoRooms @ [Disconnect ''s1'']))
     = Some ([], [''K3X9QZ'']) \<and>
   map_option (\<lambda>r. (hostId r, memberIds r))
     (roomAfter (twoRooms @ [Disconnect ''s1'']) ''K3X9QZ'')
     = Some (''s1'', [''s1''])"
  by code_simp

section \<open>The keys of the scores\<close>

text \<open>
  Every event but \<^verbatim>\<open>make-guess\<close> keeps the keys of the scores within the membership:
  creating and joining add the caller to both, starting a game writes the scores of the
  members, the next round leaves both alone, and a disconnect removes the socket from
  both.
\<close>

lemma within_update:
  "allScoresWithin s \<Longrightarrow> scoresWithin r \<Longrightarrow>
   allScoresWithin (s\<lparr>rooms := AList.update c r (rooms s)\<rparr>)"
  by (simp add: allScoresWithin_def list_all_update)

lemma within_delete:
  "allScoresWithin s \<Longrightarrow> allScoresWithin (s\<lparr>rooms := AList.delete c (rooms s)\<rparr>)"
  by (simp add: allScoresWithin_def list_all_delete)

lemma within_lookup:
  "allScoresWithin s \<Longrightarrow> map_of (rooms s) c = Some r \<Longrightarrow> scoresWithin r"
  using list_all_lookup [of "\<lambda>e. scoresWithin (snd e)" "rooms s" c r]
  by (simp add: allScoresWithin_def)

lemma within_all_players [simp]:
  "allScoresWithin (s\<lparr>all_players := ap\<rparr>) = allScoresWithin s"
  by (simp add: allScoresWithin_def)

lemma within_cong:
  "scoresWithin r \<Longrightarrow> players r' = players r \<Longrightarrow>
   scores (gameState r') = scores (gameState r) \<Longrightarrow> scoresWithin r'"
  by (simp add: scoresWithin_def scoreKeys_def memberIds_def)

lemma assignCharacters_players_scores:
  "players (assignCharacters rnd r) = players r"
  "scores (gameState (assignCharacters rnd r)) = scores (gameState r)"
  by (simp_all add: assignCharacters_def Let_def assignFrom_frame)

lemma createRoomHandler_within:
  assumes "allScoresWithin s" and "createRoomHandler s codes caller nm av rnds = Some (evs, s')"
  shows "allScoresWithin s'"
proof -
  from assms(2) obtain room rms where c: "createRoom (rooms s) codes caller nm av rnds = Some (room, rms)"
    by (auto simp: createRoomHandler_def split: option.splits)
  then have w: "scoresWithin room"
    by (auto simp: createRoom_def Let_def scoresWithin_def scoreKeys_def memberIds_def
          split: option.splits)
  from createRoom_Some(2) [OF c] assms(1) w
  have ok: "allScoresWithin (s\<lparr>rooms := rms\<rparr>)" by (simp add: within_update)
  from assms(2) c have "s' = s\<lparr>rooms := rms\<rparr> \<or>
     s' = s\<lparr>rooms := rms, all_players := AList.update caller (Some (code room)) (all_players s)\<rparr>"
    by (auto simp: createRoomHandler_def Let_def split: option.splits)
  with ok show ?thesis by auto
qed

lemma joinRoom_within:
  assumes "allScoresWithin s"
  shows "allScoresWithin (snd (joinRoom s caller roomCode nm av))"
proof (cases "map_of (rooms s) roomCode")
  case None
  with assms show ?thesis by (simp add: joinRoom_def)
next
  case (Some room)
  from within_lookup [OF assms Some] have w: "scoresWithin room" .
  define room1 where "room1 = room\<lparr>players := AList.update caller \<lparr>player_id = caller, name = nm,
       avatar = av, isHost = False, isReady = True\<rparr> (players room),
     gameState := (gameState room)\<lparr>scores := AList.update caller 0 (scores (gameState room))\<rparr>\<rparr>"
  have w1: "scoresWithin room1"
    using w dom_update [of caller _ "players room"]
          dom_update [of caller "0::int" "scores (gameState room)"]
    by (auto simp: scoresWithin_def scoreKeys_def memberIds_def room1_def)
  show ?thesis
  proof (cases "length (players room) < maxPlayers (settings room) \<and>
                status (gameState room) \<noteq> Playing \<and>
                find (\<lambda>p. name p = nm) (map snd (players room)) = None")
    case True
    then have "snd (joinRoom s caller roomCode nm av) =
        s\<lparr>rooms := AList.update roomCode room1 (rooms s)\<rparr> \<or>
      snd (joinRoom s caller roomCode nm av) =
        s\<lparr>rooms := AList.update roomCode room1 (rooms s),
          all_players := AList.update caller (Some roomCode) (all_players s)\<rparr>"
      using Some by (cases "map_of (all_players s) caller")
        (simp_all add: joinRoom_def Let_def room1_def)
    with within_update [OF assms w1] show ?thesis by auto
  next
    case False
    then have "snd (joinRoom s caller roomCode nm av) = s"
      using Some by (auto simp: joinRoom_def)
    with assms show ?thesis by simp
  qed
qed

lemma startGame_within:
  assumes "allScoresWithin s"
  shows "allScoresWithin (snd (startGame s rnd caller roomCode rnds))"
proof (cases "map_of (rooms s) roomCode")
  case None
  with assms show ?thesis by (simp add: startGame_def)
next
  case (Some room)
  from within_lookup [OF assms Some] have w: "scoresWithin room" .
  show ?thesis
  proof (cases "hostId room \<noteq> caller \<or> length (players room) < 2")
    case True
    with Some assms show ?thesis by (auto simp: startGame_def)
  next
    case False
    define gs2 where "gs2 = (gameState room)\<lparr>totalRounds := orDefault rnds (rounds (settings room)),
        status := Playing, currentRound := 1,
        scores := fold (\<lambda>playerId sc. AList.update playerId 0 sc)
                       (map fst (players room)) (scores (gameState room))\<rparr>"
    have "scoresWithin (room\<lparr>gameState := gs2\<rparr>)"
      using w keys_zero_fold [of "map fst (players room)" "scores (gameState room)"]
      by (auto simp: scoresWithin_def scoreKeys_def memberIds_def gs2_def)
    then have "scoresWithin (assignCharacters rnd (room\<lparr>gameState := gs2\<rparr>))"
      by (rule within_cong) (simp_all add: assignCharacters_players_scores)
    with False Some show ?thesis
      by (simp add: startGame_def Let_def within_update [OF assms] gs2_def)
  qed
qed

lemma nextRound_within:
  assumes "allScoresWithin s"
  shows "allScoresWithin (snd (nextRound s rnd caller roomCode))"
proof (cases "map_of (rooms s) roomCode")
  case None
  with assms show ?thesis by (simp add: nextRound_def)
next
  case (Some room)
  from within_lookup [OF assms Some] have w: "scoresWithin room" .
  show ?thesis
  proof (cases "hostId room = caller")
    case True
    have a: "scoresWithin (room\<lparr>gameState := (gameState room)\<lparr>currentRound :=
                 currentRound (gameState room) + 1, status := Finished\<rparr>\<rparr>)"
      by (rule within_cong [OF w]) simp_all
    have b: "scoresWithin (assignCharacters rnd (room\<lparr>gameState := (gameState room)\<lparr>currentRound :=
                 currentRound (gameState room) + 1\<rparr>\<rparr>))"
      by (rule within_cong [OF w]) (simp_all add: assignCharacters_players_scores)
    from True Some a b show ?thesis
      by (simp add: nextRound_def Let_def within_update [OF assms])
  next
    case False
    with Some assms show ?thesis by (simp add: nextRound_def)
  qed
qed

lemma leaveRoom_within:
  assumes "allScoresWithin s" and "map_of (rooms s) roomCode = Some room"
  shows "allScoresWithin (snd (leaveRoom s caller roomCode room))"
proof -
  from within_lookup [OF assms] have w: "scoresWithin room" .
  define rest where "rest = AList.delete caller (players room)"
  define gs where "gs = (gameState room)\<lparr>scores := AList.delete caller (scores (gameState room))\<rparr>"
  have sub: "set (map fst (scores gs)) \<subseteq> set (map fst rest)"
    using w by (auto simp: scoresWithin_def scoreKeys_def memberIds_def gs_def rest_def delete_keys)
  show ?thesis
  proof (cases "hostId room = caller")
    case True
    show ?thesis
    proof (cases rest)
      case Nil
      with True show ?thesis
        unfolding leaveRoom_cases Let_def rest_def [symmetric]
        by (simp add: within_delete [OF assms(1)])
    next
      case (Cons e es)
      have "scoresWithin (room\<lparr>gameState := gs, hostId := fst e,
              players := (fst e, (snd e)\<lparr>isHost := True\<rparr>) # es\<rparr>)"
        using sub Cons by (auto simp: scoresWithin_def scoreKeys_def memberIds_def)
      with True Cons show ?thesis
        unfolding leaveRoom_cases Let_def rest_def [symmetric] gs_def [symmetric]
        by (simp add: within_update [OF assms(1)])
    qed
  next
    case False
    have "scoresWithin (room\<lparr>players := rest, gameState := gs\<rparr>)"
      using sub by (simp add: scoresWithin_def scoreKeys_def memberIds_def)
    with False show ?thesis
      unfolding leaveRoom_cases Let_def rest_def [symmetric] gs_def [symmetric]
      by (simp add: within_update [OF assms(1)])
  qed
qed

lemma disconnect_within:
  assumes "allScoresWithin s"
  shows "allScoresWithin (snd (disconnect s caller))"
  using assms leaveRoom_within [OF assms]
  by (auto simp: disconnect_def Let_def split_beta split: option.splits)

lemma scores_within_kept:
  assumes "allScoresWithin s" and "handle s a = Some (evs, s')"
    and "\<And>c rc x. a \<noteq> MakeGuess c rc x"
  shows "allScoresWithin s'"
proof (cases a)
  case (Connection c)
  with assms show ?thesis by (auto simp: connection_def)
next
  case (CreateRoom c codes nm av rnds)
  with assms createRoomHandler_within [OF assms(1)] show ?thesis by auto
next
  case (JoinRoom c rc nm av)
  with assms joinRoom_within [OF assms(1), of c rc nm av] show ?thesis by auto
next
  case (StartGame c rnd rc rnds)
  with assms startGame_within [OF assms(1), of rnd c rc rnds] show ?thesis by auto
next
  case (MakeGuess c rc x)
  with assms(3) [of c rc x] show ?thesis by simp
next
  case (NextRound c rnd rc)
  with assms nextRound_within [OF assms(1), of rnd c rc] show ?thesis by auto
next
  case (Disconnect c)
  with assms disconnect_within [OF assms(1), of c] show ?thesis by auto
qed

text \<open>
  Claim C5 against the code. \<^verbatim>\<open>disconnect\<close> removes the score of the member who leaves,
  but \<^verbatim>\<open>calculateRoundResults\<close> writes a score for every key of its deltas, and those
  keys come from the role mapping and from \<open>sipahiId\<close> and \<open>chorId\<close> as well as from
  the membership. In \<open>leak3\<close> the Mantri \<open>s3\<close> has left and its score is gone; the
  next guess brings the key \<open>s3\<close> back. In \<open>noChor2\<close> nobody is Chor, \<open>chorId\<close> is
  \<^verbatim>\<open>null\<close>, and the guess adds the key \<^verbatim>\<open>"null"\<close>.
\<close>

theorem scores_keys_escape:
  "map_option (\<lambda>r. (memberIds r, scoreKeys r, scoresWithin r)) (roomAfter leak3 ''K3X9QZ'')
     = Some ([''s1'', ''s2''], [''s1'', ''s2''], True) \<and>
   map_option (\<lambda>r. (memberIds r, scores (gameState r), scoresWithin r))
     (roomAfter (leak3 @ [MakeGuess ''s1'' ''K3X9QZ'' (Str ''s2'')]) ''K3X9QZ'')
     = Some ([''s1'', ''s2''], [(''s1'', 700), (''s2'', 0), (''s3'', 900)], False) \<and>
   map_option (\<lambda>r. (memberIds r, scoreKeys r, scoresWithin r)) (roomAfter noChor2 ''K3X9QZ'')
     = Some ([''s1'', ''s2''], [''s1'', ''s2''], True) \<and>
   map_option (\<lambda>r. (memberIds r, scores (gameState r), scoresWithin r))
     (roomAfter (noChor2 @ [MakeGuess ''s1'' ''K3X9QZ'' (Str ''s2'')]) ''K3X9QZ'')
     = Some ([''s1'', ''s2''], [(''s1'', 0), (''s2'', 900), (''null'', 700)], False)"
  by code_simp

end
